theory Spec2Isabelle
  imports Main
begin

section \<open>The flight network: tables of the disruption engine\<close>

text \<open>
  The engine is the set of PL/pgSQL functions of the procedures file
  (\<^verbatim>\<open>initialize_flight_times\<close>, \<^verbatim>\<open>calculate_blast_radius\<close>,
  \<^verbatim>\<open>reset_simulation\<close>, \<^verbatim>\<open>update_flight_statuses\<close>,
  \<^verbatim>\<open>suggest_rebookings\<close>) over the tables of the schema. A table is a list of
  rows in table order, a nullable column is an \<open>option\<close>, an \<^verbatim>\<open>UPDATE\<close> maps
  over the rows, and every function takes the database and returns the new one.

  Conventions of the model:
  \<^item> A \<^verbatim>\<open>TIMESTAMP\<close> is a whole number of seconds (an \<open>int\<close>). Every interval the
    engine adds is a whole number of minutes, and \<^verbatim>\<open>NOW()\<close> is only ever compared
    with a column, so for whole-second columns the comparison with \<^verbatim>\<open>NOW()\<close> is the
    comparison with its floor, which is the parameter \<open>now\<close>.
  \<^item> \<^verbatim>\<open>INT\<close> columns and variables are unbounded integers. PostgreSQL never wraps:
    it aborts the call with an error where a 32-bit value would overflow, and the
    transaction is rolled back. Such value-range errors (an overflow, a cause longer
    than its column) are not modelled; every database the code returns is the one the
    model returns.
  \<^item> The two status columns carry a default and every statement of the repository
    writes an enum value to them; they are modelled as the enum itself. The columns
    the code itself guards with \<^verbatim>\<open>COALESCE\<close> or \<^verbatim>\<open>IS NOT NULL\<close>
    (\<^verbatim>\<open>aircraft_id\<close>, \<^verbatim>\<open>actual_dep\<close>, \<^verbatim>\<open>actual_arr\<close>,
    \<^verbatim>\<open>delay_minutes\<close>, \<^verbatim>\<open>next_booking_id\<close>) are options.
  \<^item> A query without \<^verbatim>\<open>ORDER BY\<close> returns rows in table order, and
    \<^verbatim>\<open>ORDER BY k LIMIT n\<close> is the first \<open>n\<close> rows of a stable sort by \<open>k\<close>.
  \<^item> The serial \<^verbatim>\<open>id\<close> and the \<^verbatim>\<open>created_at\<close> column of the disruption log
    are left out: the log is the list of its rows in insertion order. So are the
    columns no function of the engine reads (contact data, airports, timestamps of
    creation); the JSON columns of a snapshot are its text.
\<close>

type_synonym timestamp = int

datatype flight_status = SCHEDULED | BOARDING | ACTIVE | LANDED | DELAYED | CANCELLED

datatype booking_status = CONFIRMED | MISSED_CONNECTION | REBOOKED | BOOKING_CANCELLED

record aircraft =
  aircraft_pk :: int
  tail_number :: string
  capacity :: int

record flight =
  flight_pk :: int
  flight_number :: string
  aircraft_id :: "int option"
  origin_code :: string
  destination_code :: string
  scheduled_dep :: timestamp
  scheduled_arr :: timestamp
  actual_dep :: "timestamp option"
  actual_arr :: "timestamp option"
  delay_minutes :: "int option"
  status :: flight_status

record passenger =
  passenger_pk :: int
  first_name :: string
  last_name :: string

record booking =
  booking_pk :: int
  passenger_id :: int
  flight_id :: int
  next_booking_id :: "int option"
  booking_status :: booking_status

record disruption =
  log_flight_id :: int
  log_delay_minutes :: int
  cause :: "string option"
  cascaded_from_flight_id :: "int option"
  passengers_impacted :: int
  flights_impacted :: int

record snapshot =
  snapshot_pk :: int
  snapshot_label :: string
  flights_data :: string
  missed_connections_data :: string
  metrics :: string

record db =
  aircraft :: "aircraft list"
  flights :: "flight list"
  passengers :: "passenger list"
  bookings :: "booking list"
  disruption_log :: "disruption list"
  simulation_snapshots :: "snapshot list"

subsection \<open>Effective times and minute arithmetic\<close>

definition effective_dep :: "flight \<Rightarrow> timestamp" where
  \<comment> \<open>\<^verbatim>\<open>COALESCE(actual_dep, scheduled_dep)\<close>\<close>
  "effective_dep f = (case actual_dep f of None \<Rightarrow> scheduled_dep f | Some t \<Rightarrow> t)"

definition effective_arr :: "flight \<Rightarrow> timestamp" where
  \<comment> \<open>\<^verbatim>\<open>COALESCE(actual_arr, scheduled_arr)\<close>\<close>
  "effective_arr f = (case actual_arr f of None \<Rightarrow> scheduled_arr f | Some t \<Rightarrow> t)"

definition cumulative_delay :: "flight \<Rightarrow> int" where
  \<comment> \<open>\<^verbatim>\<open>COALESCE(delay_minutes, 0)\<close>\<close>
  "cumulative_delay f = (case delay_minutes f of None \<Rightarrow> 0 | Some d \<Rightarrow> d)"

definition minutes :: "int \<Rightarrow> int" where
  \<comment> \<open>\<^verbatim>\<open>(m || ' minutes')::INTERVAL\<close>, in seconds\<close>
  "minutes m = m * 60"

definition int_div :: "int \<Rightarrow> int \<Rightarrow> int" where
  \<comment> \<open>PostgreSQL's integer \<^verbatim>\<open>/\<close> truncates towards zero\<close>
  "int_div a b = sgn a * sgn b * (\<bar>a\<bar> div \<bar>b\<bar>)"

definition minutes_between :: "timestamp \<Rightarrow> timestamp \<Rightarrow> int" where
  \<comment> \<open>\<^verbatim>\<open>EXTRACT(EPOCH FROM (t1 - t2))::INT / 60\<close>\<close>
  "minutes_between t1 t2 = int_div (t1 - t2) 60"

section \<open>Delay propagation: \<^verbatim>\<open>calculate_blast_radius\<close>\<close>

datatype pg_error = ForeignKeyViolation

subsection \<open>\<^verbatim>\<open>initialize_flight_times\<close>\<close>

definition initialize_flight_times :: "db \<Rightarrow> db" where
  "initialize_flight_times d =
     d\<lparr>flights :=
         map (\<lambda>f. if actual_dep f = None
                   then f\<lparr>actual_dep := Some (scheduled_dep f),
                          actual_arr := Some (scheduled_arr f)\<rparr>
                   else f) (flights d)\<rparr>"

subsection \<open>Step 1: delay the target flight\<close>

definition delay_flight :: "int \<Rightarrow> flight \<Rightarrow> flight" where
  \<comment> \<open>the \<^verbatim>\<open>SET\<close> clause of step 1, every right-hand side read from the old row\<close>
  "delay_flight p_delay_minutes f =
     f\<lparr>actual_dep := Some (effective_dep f + minutes p_delay_minutes),
       actual_arr := Some (effective_arr f + minutes p_delay_minutes),
       delay_minutes := Some (cumulative_delay f + p_delay_minutes),
       status := DELAYED\<rparr>"

definition delay_target :: "int \<Rightarrow> int \<Rightarrow> flight list \<Rightarrow> flight list" where
  \<comment> \<open>\<^verbatim>\<open>UPDATE flights SET ... WHERE id = p_flight_id\<close>\<close>
  "delay_target p_flight_id p_delay_minutes fs =
     map (\<lambda>f. if flight_pk f = p_flight_id then delay_flight p_delay_minutes f else f) fs"

definition select_flight :: "int \<Rightarrow> flight list \<Rightarrow> flight option" where
  \<comment> \<open>\<^verbatim>\<open>SELECT ... FROM flights WHERE id = p_flight_id\<close>; no row leaves the targets NULL\<close>
  "select_flight p_flight_id fs = find (\<lambda>f. flight_pk f = p_flight_id) fs"

subsection \<open>Step 2: the next flight of the same aircraft\<close>

definition order_by_limit :: "nat \<Rightarrow> ('a \<Rightarrow> int) \<Rightarrow> 'a list \<Rightarrow> 'a list" where
  \<comment> \<open>\<^verbatim>\<open>ORDER BY k ASC LIMIT n\<close>\<close>
  "order_by_limit n k rows = take n (sort_key k rows)"

definition turnaround_candidate :: "int \<Rightarrow> int \<Rightarrow> timestamp \<Rightarrow> flight \<Rightarrow> bool" where
  \<comment> \<open>the \<^verbatim>\<open>WHERE\<close> clause of the next-flight query\<close>
  "turnaround_candidate p_flight_id a t f \<longleftrightarrow>
     aircraft_id f = Some a \<and> flight_pk f \<noteq> p_flight_id \<and> effective_dep f \<ge> t
     \<and> status f \<noteq> LANDED \<and> status f \<noteq> CANCELLED"

definition next_flight ::
  "int \<Rightarrow> int option \<Rightarrow> timestamp option \<Rightarrow> flight list \<Rightarrow> flight option" where
  \<comment> \<open>a NULL \<^verbatim>\<open>v_aircraft_id\<close> or \<^verbatim>\<open>v_new_dep\<close> makes the \<^verbatim>\<open>WHERE\<close> clause
      NULL on every row\<close>
  "next_flight p_flight_id v_aircraft_id v_new_dep fs =
     (case v_aircraft_id of
        None \<Rightarrow> None
      | Some a \<Rightarrow>
          (case v_new_dep of
             None \<Rightarrow> None
           | Some t \<Rightarrow>
               (case order_by_limit 1 effective_dep
                       (filter (turnaround_candidate p_flight_id a t) fs) of
                  [] \<Rightarrow> None
                | nf # _ \<Rightarrow> Some nf)))"

definition forced_delay :: "timestamp \<Rightarrow> timestamp \<Rightarrow> int" where
  \<comment> \<open>\<^verbatim>\<open>v_min_turnaround - EXTRACT(EPOCH FROM (v_next_dep - v_new_arr))::INT / 60\<close>\<close>
  "forced_delay v_next_dep v_new_arr = 45 - minutes_between v_next_dep v_new_arr"

definition cascade_target ::
  "int \<Rightarrow> int option \<Rightarrow> timestamp option \<Rightarrow> timestamp option \<Rightarrow> flight list
   \<Rightarrow> (int \<times> int) option" where
  \<comment> \<open>the flight and the delay of the recursive call, when there is one; a NULL
      \<^verbatim>\<open>v_new_arr\<close> makes \<^verbatim>\<open>v_forced_delay > 0\<close> NULL\<close>
  "cascade_target p_flight_id v_aircraft_id v_new_dep v_new_arr fs =
     (case next_flight p_flight_id v_aircraft_id v_new_dep fs of
        None \<Rightarrow> None
      | Some nf \<Rightarrow>
          (case v_new_arr of
             None \<Rightarrow> None
           | Some a \<Rightarrow>
               (if forced_delay (effective_dep nf) a > 0
                then Some (flight_pk nf, forced_delay (effective_dep nf) a)
                else None)))"

fun nat_text :: "nat \<Rightarrow> string" where
  "nat_text n =
     (if n < 10 then [''0123456789'' ! n]
      else nat_text (n div 10) @ [''0123456789'' ! (n mod 10)])"

declare nat_text.simps [simp del]

definition int_text :: "int \<Rightarrow> string" where
  \<comment> \<open>the text of an \<^verbatim>\<open>INT\<close>, as \<^verbatim>\<open>||\<close> renders it\<close>
  "int_text i = (if i < 0 then CHR ''-'' # nat_text (nat (- i)) else nat_text (nat i))"

definition turnaround_cause :: "int \<Rightarrow> string" where
  "turnaround_cause p_flight_id = ''Aircraft turnaround from flight '' @ int_text p_flight_id"

subsection \<open>Step 3: passenger connections\<close>

definition connecting_bookings :: "int \<Rightarrow> booking list \<Rightarrow> (int \<times> int) list" where
  \<comment> \<open>the rows of the \<^verbatim>\<open>FOR v_booking IN SELECT\<close>, fixed when the loop starts\<close>
  "connecting_bookings p_flight_id bs =
     List.map_filter
       (\<lambda>b. case next_booking_id b of
               None \<Rightarrow> None
             | Some n \<Rightarrow>
                 if flight_id b = p_flight_id \<and> booking_status b = CONFIRMED
                 then Some (booking_pk b, n) else None) bs"

definition next_flight_dep :: "db \<Rightarrow> int \<Rightarrow> timestamp option" where
  \<comment> \<open>the departure of the connecting flight: \<^verbatim>\<open>bookings b2 JOIN flights f\<close>\<close>
  "next_flight_dep d n =
     (case find (\<lambda>b2. booking_pk b2 = n) (bookings d) of
        None \<Rightarrow> None
      | Some b2 \<Rightarrow>
          map_option effective_dep (find (\<lambda>f. flight_pk f = flight_id b2) (flights d)))"

definition connection_broken :: "timestamp option \<Rightarrow> timestamp option \<Rightarrow> bool" where
  \<comment> \<open>\<^verbatim>\<open>v_next_flight_dep IS NOT NULL AND EXTRACT(...)::INT / 60 < v_min_connection\<close>\<close>
  "connection_broken v_next_flight_dep v_new_arr =
     (case v_next_flight_dep of
        None \<Rightarrow> False
      | Some t \<Rightarrow> (case v_new_arr of None \<Rightarrow> False | Some a \<Rightarrow> minutes_between t a < 30))"

definition mark_missed :: "int \<Rightarrow> booking list \<Rightarrow> booking list" where
  \<comment> \<open>\<^verbatim>\<open>UPDATE bookings SET status = 'MISSED_CONNECTION' WHERE id = i\<close>\<close>
  "mark_missed i bs =
     map (\<lambda>b. if booking_pk b = i then b\<lparr>booking_status := MISSED_CONNECTION\<rparr> else b) bs"

definition check_connection :: "timestamp option \<Rightarrow> int \<times> int \<Rightarrow> db \<times> int \<Rightarrow> db \<times> int" where
  \<comment> \<open>the body of the loop, on the database and \<^verbatim>\<open>v_pax_impacted\<close>\<close>
  "check_connection v_new_arr v_booking s =
     (case v_booking of (v_booking_id, v_next_booking_id) \<Rightarrow>
      case s of (d, v_pax_impacted) \<Rightarrow>
        if connection_broken (next_flight_dep d v_next_booking_id) v_new_arr
        then (d\<lparr>bookings :=
                  mark_missed v_next_booking_id (mark_missed v_booking_id (bookings d))\<rparr>,
              v_pax_impacted + 1)
        else (d, v_pax_impacted))"

definition connection_check :: "int \<Rightarrow> timestamp option \<Rightarrow> db \<Rightarrow> db \<times> int" where
  "connection_check p_flight_id v_new_arr d =
     fold (check_connection v_new_arr) (connecting_bookings p_flight_id (bookings d)) (d, 0)"

text \<open>
  The bookings whose connection the delay breaks, in the words of the
  specification: a CONFIRMED booking of the delayed flight with a forward link, with
  fewer than 30 minutes between the flight's new arrival and the departure (actual if
  set, else scheduled) of the flight of the linked booking.
\<close>

definition misses_connection :: "db \<Rightarrow> int \<Rightarrow> timestamp \<Rightarrow> booking \<Rightarrow> bool" where
  "misses_connection d p_flight_id v_new_arr b \<longleftrightarrow>
     flight_id b = p_flight_id \<and> booking_status b = CONFIRMED
     \<and> (case next_booking_id b of
          None \<Rightarrow> False
        | Some n \<Rightarrow>
            (case find (\<lambda>b2. booking_pk b2 = n) (bookings d) of
               None \<Rightarrow> False
             | Some b2 \<Rightarrow>
                 (case find (\<lambda>f. flight_pk f = flight_id b2) (flights d) of
                    None \<Rightarrow> False
                  | Some f \<Rightarrow>
                      minutes_between
                        (case actual_dep f of None \<Rightarrow> scheduled_dep f | Some t \<Rightarrow> t)
                        v_new_arr < 30)))"

text \<open>
  The bookings such a booking takes with it: itself and the booking it links to.
\<close>

definition connection_marked :: "db \<Rightarrow> int \<Rightarrow> timestamp \<Rightarrow> int \<Rightarrow> bool" where
  "connection_marked d p_flight_id v_new_arr i \<longleftrightarrow>
     (\<exists>b \<in> set (bookings d). misses_connection d p_flight_id v_new_arr b
         \<and> (i = booking_pk b \<or> next_booking_id b = Some i))"

subsection \<open>Step 4: the disruption log\<close>

definition flight_exists :: "db \<Rightarrow> int \<Rightarrow> bool" where
  "flight_exists d i \<longleftrightarrow> i \<in> set (map flight_pk (flights d))"

definition log_disruption :: "disruption \<Rightarrow> db \<Rightarrow> pg_error + db" where
  \<comment> \<open>\<^verbatim>\<open>INSERT INTO disruption_log\<close>: both flight columns reference \<^verbatim>\<open>flights(id)\<close>\<close>
  "log_disruption e d =
     (if flight_exists d (log_flight_id e)
         \<and> (case cascaded_from_flight_id e of None \<Rightarrow> True | Some c \<Rightarrow> flight_exists d c)
      then Inr (d\<lparr>disruption_log := disruption_log d @ [e]\<rparr>)
      else Inl ForeignKeyViolation)"

definition check_and_log ::
  "int \<Rightarrow> int \<Rightarrow> string option \<Rightarrow> int option \<Rightarrow> timestamp option \<Rightarrow> int \<Rightarrow> db
   \<Rightarrow> pg_error + db" where
  \<comment> \<open>steps 3 and 4\<close>
  "check_and_log p_flight_id p_delay_minutes p_cause p_cascaded_from v_new_arr
     v_flights_impacted d =
     (case connection_check p_flight_id v_new_arr d of
        (d3, v_pax_impacted) \<Rightarrow>
          log_disruption
            \<lparr>log_flight_id = p_flight_id, log_delay_minutes = p_delay_minutes,
             cause = p_cause, cascaded_from_flight_id = p_cascaded_from,
             passengers_impacted = v_pax_impacted,
             flights_impacted = v_flights_impacted\<rparr> d3)"

subsection \<open>The recursive function\<close>

text \<open>
  An error of the recursive call aborts the caller as well (the value \<open>Inl\<close>); the
  transaction is rolled back, so the database after an error is the one before the
  outermost call.
\<close>

function calculate_blast_radius ::
  "int \<Rightarrow> int \<Rightarrow> string option \<Rightarrow> int option \<Rightarrow> int \<Rightarrow> db \<Rightarrow> pg_error + db" where
  "calculate_blast_radius p_flight_id p_delay_minutes p_cause p_cascaded_from p_depth d =
     (if p_depth > 20 then Inr d
      else
        let d1 = d\<lparr>flights := delay_target p_flight_id p_delay_minutes (flights d)\<rparr>;
            row = select_flight p_flight_id (flights d1);
            v_new_arr = Option.bind row actual_arr;
            v_new_dep = Option.bind row actual_dep;
            v_aircraft_id = Option.bind row aircraft_id
        in case cascade_target p_flight_id v_aircraft_id v_new_dep v_new_arr (flights d1) of
             None \<Rightarrow>
               check_and_log p_flight_id p_delay_minutes p_cause p_cascaded_from v_new_arr 0 d1
           | Some (v_next_flight_id, v_forced_delay) \<Rightarrow>
               (case calculate_blast_radius v_next_flight_id v_forced_delay
                       (Some (turnaround_cause p_flight_id)) (Some p_flight_id)
                       (p_depth + 1) d1 of
                  Inl e \<Rightarrow> Inl e
                | Inr d2 \<Rightarrow>
                    check_and_log p_flight_id p_delay_minutes p_cause p_cascaded_from
                      v_new_arr 1 d2))"
  by pat_completeness auto
termination
  by (relation "measure (\<lambda>(_, _, _, _, p_depth, _). nat (21 - p_depth))") auto

declare calculate_blast_radius.simps [simp del]

section \<open>Lifecycle: \<^verbatim>\<open>update_flight_statuses\<close>\<close>

definition to_boarding :: "timestamp \<Rightarrow> flight \<Rightarrow> flight" where
  "to_boarding now f =
     (if status f = SCHEDULED \<and> effective_dep f \<le> now + minutes 30 \<and> effective_dep f > now
      then f\<lparr>status := BOARDING\<rparr> else f)"

definition to_active :: "timestamp \<Rightarrow> flight \<Rightarrow> flight" where
  "to_active now f =
     (if (status f = BOARDING \<or> status f = DELAYED) \<and> effective_dep f \<le> now
         \<and> effective_arr f > now
      then f\<lparr>status := ACTIVE\<rparr> else f)"

definition to_landed :: "timestamp \<Rightarrow> flight \<Rightarrow> flight" where
  "to_landed now f =
     (if status f = ACTIVE \<and> effective_arr f \<le> now then f\<lparr>status := LANDED\<rparr> else f)"

definition update_flight_statuses :: "timestamp \<Rightarrow> db \<Rightarrow> db" where
  \<comment> \<open>the three \<^verbatim>\<open>UPDATE\<close> statements, in order, at one \<^verbatim>\<open>NOW()\<close>\<close>
  "update_flight_statuses now d =
     d\<lparr>flights := map (to_landed now) (map (to_active now) (map (to_boarding now) (flights d)))\<rparr>"

section \<open>Reset\<close>

definition reset_flight :: "flight \<Rightarrow> flight" where
  "reset_flight f =
     f\<lparr>actual_dep := Some (scheduled_dep f),
       actual_arr := Some (scheduled_arr f),
       delay_minutes := Some 0,
       status := SCHEDULED\<rparr>"

definition reset_simulation :: "db \<Rightarrow> db" where
  "reset_simulation d =
     d\<lparr>flights := map reset_flight (flights d),
       bookings := map (\<lambda>b. b\<lparr>booking_status := CONFIRMED\<rparr>) (bookings d),
       disruption_log := []\<rparr>"

subsection \<open>The metrics of the world state\<close>

definition delayed_flights :: "db \<Rightarrow> nat" where
  \<comment> \<open>\<^verbatim>\<open>fetchWorldState\<close>: count of flights with status DELAYED\<close>
  "delayed_flights d = length (filter (\<lambda>f. status f = DELAYED) (flights d))"

definition missed_connections :: "db \<Rightarrow> nat" where
  \<comment> \<open>\<^verbatim>\<open>fetchWorldState\<close>: count of bookings with status MISSED\_CONNECTION\<close>
  "missed_connections d =
     length (filter (\<lambda>b. booking_status b = MISSED_CONNECTION) (bookings d))"

section \<open>Rebooking: \<^verbatim>\<open>suggest_rebookings\<close>\<close>

record suggestion =
  sg_booking_id :: int
  sg_passenger_name :: string
  sg_passenger_id :: int
  missed_flight_number :: string
  missed_origin :: string
  missed_destination :: string
  suggested_flight_id :: int
  suggested_flight_number :: string
  suggested_dep :: timestamp
  suggested_arr :: timestamp
  seats_available :: int
  time_saved_minutes :: int

definition stranded_bookings :: "db \<Rightarrow> (booking \<times> passenger) list" where
  \<comment> \<open>the rows of the outer loop: \<^verbatim>\<open>bookings b JOIN passengers p\<close>\<close>
  "stranded_bookings d =
     [(b, p). b \<leftarrow> bookings d, p \<leftarrow> passengers d,
              passenger_id b = passenger_pk p
              \<and> booking_status b = MISSED_CONNECTION \<and> next_booking_id b \<noteq> None]"

definition missed_flight :: "db \<Rightarrow> int \<Rightarrow> flight option" where
  \<comment> \<open>the flight of the linked booking; no row leaves \<^verbatim>\<open>v_missed_flight\<close> NULL\<close>
  "missed_flight d n =
     (case find (\<lambda>b2. booking_pk b2 = n) (bookings d) of
        None \<Rightarrow> None
      | Some b2 \<Rightarrow> find (\<lambda>f. flight_pk f = flight_id b2) (flights d))"

definition same_route_after :: "timestamp \<Rightarrow> flight \<Rightarrow> flight \<Rightarrow> bool" where
  \<comment> \<open>the \<^verbatim>\<open>WHERE\<close> clause of the candidate query, on the flight columns\<close>
  "same_route_after now mf f \<longleftrightarrow>
     origin_code f = origin_code mf \<and> destination_code f = destination_code mf
     \<and> effective_dep f > now \<and> status f \<noteq> LANDED \<and> status f \<noteq> CANCELLED
     \<and> flight_pk f \<noteq> flight_pk mf"

definition alternative_flights :: "timestamp \<Rightarrow> db \<Rightarrow> flight \<Rightarrow> (flight \<times> aircraft) list" where
  \<comment> \<open>\<^verbatim>\<open>flights f JOIN aircraft a ON f.aircraft_id = a.id WHERE ...\<close>\<close>
  "alternative_flights now d mf =
     [(f, a). f \<leftarrow> flights d, a \<leftarrow> aircraft d,
              aircraft_id f = Some (aircraft_pk a) \<and> same_route_after now mf f]"

definition rebooking_candidates :: "timestamp \<Rightarrow> db \<Rightarrow> flight \<Rightarrow> (flight \<times> aircraft) list" where
  \<comment> \<open>\<^verbatim>\<open>ORDER BY COALESCE(f.actual_dep, f.scheduled_dep) ASC LIMIT 3\<close>\<close>
  "rebooking_candidates now d mf =
     order_by_limit 3 (\<lambda>r. effective_dep (fst r)) (alternative_flights now d mf)"

definition booked_seats :: "db \<Rightarrow> int \<Rightarrow> int" where
  "booked_seats d i =
     int (length (filter (\<lambda>b. flight_id b = i
            \<and> (booking_status b = CONFIRMED \<or> booking_status b = REBOOKED)) (bookings d)))"

definition seats_free :: "db \<Rightarrow> flight \<times> aircraft \<Rightarrow> int" where
  \<comment> \<open>\<^verbatim>\<open>v_suggested.capacity - v_booked_seats\<close>\<close>
  "seats_free d r = capacity (snd r) - booked_seats d (flight_pk (fst r))"

definition suggest_rebooking :: "timestamp \<Rightarrow> db \<Rightarrow> booking \<times> passenger \<Rightarrow> suggestion option" where
  \<comment> \<open>the body of the outer loop: the inner loop leaves at the first candidate with a
      free seat\<close>
  "suggest_rebooking now d v_booking =
     (case next_booking_id (fst v_booking) of
        None \<Rightarrow> None
      | Some n \<Rightarrow>
          (case missed_flight d n of
             None \<Rightarrow> None
           | Some v_missed_flight \<Rightarrow>
               (case find (\<lambda>r. seats_free d r > 0) (rebooking_candidates now d v_missed_flight) of
                  None \<Rightarrow> None
                | Some v_suggested \<Rightarrow>
                    Some \<lparr>sg_booking_id = booking_pk (fst v_booking),
                          sg_passenger_name =
                            first_name (snd v_booking) @ '' '' @ last_name (snd v_booking),
                          sg_passenger_id = passenger_id (fst v_booking),
                          missed_flight_number = flight_number v_missed_flight,
                          missed_origin = origin_code v_missed_flight,
                          missed_destination = destination_code v_missed_flight,
                          suggested_flight_id = flight_pk (fst v_suggested),
                          suggested_flight_number = flight_number (fst v_suggested),
                          suggested_dep = effective_dep (fst v_suggested),
                          suggested_arr = effective_arr (fst v_suggested),
                          seats_available = seats_free d v_suggested,
                          time_saved_minutes =
                            minutes_between (effective_arr v_missed_flight)
                              (effective_arr (fst v_suggested))\<rparr>)))"

definition suggest_rebookings :: "timestamp \<Rightarrow> db \<Rightarrow> suggestion list" where
  "suggest_rebookings now d = List.map_filter (suggest_rebooking now d) (stranded_bookings d)"

text \<open>
  The candidates in the words of the specification: the flights on the route of the
  missed flight, departing after now, not the missed flight itself, not LANDED or
  CANCELLED, the first three by effective departure.
\<close>

definition spec_candidates :: "timestamp \<Rightarrow> db \<Rightarrow> flight \<Rightarrow> flight list" where
  "spec_candidates now d mf =
     order_by_limit 3 effective_dep (filter (same_route_after now mf) (flights d))"

section \<open>The calls of the engine\<close>

text \<open>
  The functions a caller reaches through \<^verbatim>\<open>supabase.rpc\<close> or the scheduler. Each call
  is one transaction: when it raises, its writes are rolled back and the database is
  the one before the call. \<^verbatim>\<open>trigger_random_delay\<close> is \<^verbatim>\<open>calculate_blast_radius\<close>
  at depth 0 on a flight, a delay and a cause that it draws at random, so it is one of
  the calls below.
\<close>

datatype rpc =
    Calculate_blast_radius int int "string option" "int option" int
  | Update_flight_statuses timestamp
  | Reset_simulation
  | Initialize_flight_times

fun rpc_call :: "rpc \<Rightarrow> db \<Rightarrow> db" where
  "rpc_call (Calculate_blast_radius p_flight_id p_delay_minutes p_cause p_cascaded_from p_depth) d =
     (case calculate_blast_radius p_flight_id p_delay_minutes p_cause p_cascaded_from p_depth d of
        Inl e \<Rightarrow> d
      | Inr d' \<Rightarrow> d')"
| "rpc_call (Update_flight_statuses now) d = update_flight_statuses now d"
| "rpc_call Reset_simulation d = reset_simulation d"
| "rpc_call Initialize_flight_times d = initialize_flight_times d"

text \<open>The delay a call asks for; the other calls take none.\<close>

fun delay_input :: "rpc \<Rightarrow> int" where
  "delay_input (Calculate_blast_radius p_flight_id p_delay_minutes p_cause p_cascaded_from p_depth)
     = p_delay_minutes"
| "delay_input _ = 0"

text \<open>
  The invariant of the data model on one flight: its actual times are set, the actual
  departure is the scheduled one plus the cumulative delay, and the actual duration is
  the scheduled duration.
\<close>

definition times_consistent :: "flight \<Rightarrow> bool" where
  "times_consistent f =
     (case actual_dep f of
        None \<Rightarrow> False
      | Some dep \<Rightarrow>
          (case actual_arr f of
             None \<Rightarrow> False
           | Some arr \<Rightarrow>
               dep = scheduled_dep f + minutes (cumulative_delay f)
               \<and> arr - dep = scheduled_arr f - scheduled_dep f))"

text \<open>
  A flight as it is seeded: no actual times yet and no delay. The first delay or
  \<^verbatim>\<open>initialize_flight_times\<close> sets its actual times.
\<close>

definition not_yet_initialized :: "flight \<Rightarrow> bool" where
  "not_yet_initialized f \<longleftrightarrow>
     actual_dep f = None \<and> actual_arr f = None \<and> cumulative_delay f = 0"

section \<open>Example networks\<close>

definition example_flight :: "int \<Rightarrow> int option \<Rightarrow> timestamp \<Rightarrow> timestamp \<Rightarrow> flight" where
  "example_flight i a dep arr =
     \<lparr>flight_pk = i, flight_number = ''BA'' @ int_text i, aircraft_id = a,
      origin_code = ''JFK'', destination_code = ''LHR'',
      scheduled_dep = dep, scheduled_arr = arr, actual_dep = None, actual_arr = None,
      delay_minutes = Some 0, status = SCHEDULED\<rparr>"

text \<open>
  One aircraft flying 10:00--12:00 (flight 1) and 13:00--15:00 (flight 2), times in
  seconds of the day.
\<close>

definition rotation_db :: db where
  "rotation_db =
     \<lparr>aircraft = [\<lparr>aircraft_pk = 7, tail_number = ''G-XLEA'', capacity = 2\<rparr>],
      flights = [example_flight 1 (Some 7) 36000 43200, example_flight 2 (Some 7) 46800 54000],
      passengers = [], bookings = [], disruption_log = [], simulation_snapshots = []\<rparr>"

text \<open>
  One aircraft flying 23 legs of 60 minutes with 45 minutes on the ground between
  them: a delay of 10 minutes on the first leg forces 10 minutes on every next one.
\<close>

definition chain_db :: db where
  "chain_db =
     \<lparr>aircraft = [\<lparr>aircraft_pk = 7, tail_number = ''G-XLEA'', capacity = 2\<rparr>],
      flights = map (\<lambda>i. example_flight i (Some 7) (i * 6300) (i * 6300 + 3600)) [1..23],
      passengers = [], bookings = [], disruption_log = [], simulation_snapshots = []\<rparr>"

text \<open>
  Two flights of one aircraft with the same times: each is the next flight of the
  other.
\<close>

definition twin_db :: db where
  "twin_db =
     \<lparr>aircraft = [\<lparr>aircraft_pk = 7, tail_number = ''G-XLEA'', capacity = 2\<rparr>],
      flights = [example_flight 1 (Some 7) 36000 43200, example_flight 2 (Some 7) 36000 43200],
      passengers = [], bookings = [], disruption_log = [], simulation_snapshots = []\<rparr>"

text \<open>
  The rotation again, the second leg departing \<open>gap\<close> minutes after 13:00.
\<close>

definition turnaround_db :: "int \<Rightarrow> db" where
  "turnaround_db gap =
     \<lparr>aircraft = [\<lparr>aircraft_pk = 7, tail_number = ''G-XLEA'', capacity = 2\<rparr>],
      flights = [example_flight 1 (Some 7) 36000 43200,
                 example_flight 2 (Some 7) (46800 + minutes gap) (54000 + minutes gap)],
      passengers = [], bookings = [], disruption_log = [], simulation_snapshots = []\<rparr>"

text \<open>
  Flight 1 arrives at 12:00; passenger 1 connects to flight 2 (departing 13:00),
  passenger 2 to flight 3 (departing 12:59).
\<close>

definition example_booking :: "int \<Rightarrow> int \<Rightarrow> int \<Rightarrow> int option \<Rightarrow> booking" where
  "example_booking i pax f n =
     \<lparr>booking_pk = i, passenger_id = pax, flight_id = f, next_booking_id = n,
      booking_status = CONFIRMED\<rparr>"

definition connection_db :: db where
  "connection_db =
     \<lparr>aircraft = [],
      flights = [example_flight 1 None 36000 43200, example_flight 2 None 46800 54000,
                 example_flight 3 None 46740 54000],
      passengers = [\<lparr>passenger_pk = 1, first_name = ''Ada'', last_name = ''Byron''\<rparr>,
                    \<lparr>passenger_pk = 2, first_name = ''Max'', last_name = ''Born''\<rparr>],
      bookings = [example_booking 1 1 1 (Some 2), example_booking 2 1 2 None,
                  example_booking 3 2 1 (Some 4), example_booking 4 2 3 None],
      disruption_log = [], simulation_snapshots = []\<rparr>"

text \<open>
  Passenger 1 has missed flight 10 (JFK to LHR). Four later flights fly the route:
  flight 11 has no aircraft assigned, flights 12 and 13 are full, flight 14 has one
  seat left.
\<close>

definition rebooking_db :: db where
  "rebooking_db =
     \<lparr>aircraft = [\<lparr>aircraft_pk = 1, tail_number = ''G-XLEA'', capacity = 1\<rparr>,
                  \<lparr>aircraft_pk = 2, tail_number = ''G-XLEB'', capacity = 1\<rparr>,
                  \<lparr>aircraft_pk = 3, tail_number = ''G-XLEC'', capacity = 2\<rparr>],
      flights = [(example_flight 1 None 30000 40000)
                    \<lparr>origin_code := ''BOS'', destination_code := ''JFK''\<rparr>,
                 example_flight 10 None 50000 75000,
                 example_flight 11 None 60000 85000,
                 example_flight 12 (Some 1) 61000 86000,
                 example_flight 13 (Some 2) 62000 87000,
                 example_flight 14 (Some 3) 63000 90000],
      passengers = [\<lparr>passenger_pk = 1, first_name = ''Ada'', last_name = ''Byron''\<rparr>,
                    \<lparr>passenger_pk = 2, first_name = ''Max'', last_name = ''Born''\<rparr>],
      bookings = [(example_booking 1 1 1 (Some 2))\<lparr>booking_status := MISSED_CONNECTION\<rparr>,
                  (example_booking 2 1 10 None)\<lparr>booking_status := MISSED_CONNECTION\<rparr>,
                  example_booking 3 2 12 None,
                  (example_booking 4 2 13 None)\<lparr>booking_status := REBOOKED\<rparr>,
                  example_booking 5 2 14 None],
      disruption_log = [], simulation_snapshots = []\<rparr>"


text \<open>
  Flight 1 arrives at 12:00 and its aircraft flies flight 2 at 12:40. Passenger 1
  connects to flight 2, passenger 2 to flight 3 (departing 12:59), passenger 3 to
  flight 4 (departing 13:00). A delay of 30 minutes on flight 1 moves its arrival to
  12:30 and, through the turnaround, the departure of flight 2 to 13:15.
\<close>

definition cascade_connection_db :: db where
  "cascade_connection_db =
     \<lparr>aircraft = [\<lparr>aircraft_pk = 7, tail_number = ''G-XLEA'', capacity = 2\<rparr>],
      flights = [example_flight 1 (Some 7) 36000 43200, example_flight 2 (Some 7) 45600 52800,
                 example_flight 3 None 46740 54000, example_flight 4 None 46800 54000],
      passengers = [\<lparr>passenger_pk = 1, first_name = ''Ada'', last_name = ''Byron''\<rparr>,
                    \<lparr>passenger_pk = 2, first_name = ''Max'', last_name = ''Born''\<rparr>,
                    \<lparr>passenger_pk = 3, first_name = ''Emmy'', last_name = ''Noether''\<rparr>],
      bookings = [example_booking 1 1 1 (Some 2), example_booking 2 1 2 None,
                  example_booking 3 2 1 (Some 4), example_booking 4 2 3 None,
                  example_booking 5 3 1 (Some 6), example_booking 6 3 4 None],
      disruption_log = [], simulation_snapshots = []\<rparr>"

text \<open>
  The rebooking example with more bookings: a second stranded passenger (booking 6,
  who missed flight 10 as well), a cancelled booking on flight 14, and booking 9, which
  missed flight 1, a route no other flight serves.
\<close>

definition stranded_db :: db where
  "stranded_db =
     rebooking_db
       \<lparr>passengers := passengers rebooking_db @
          [\<lparr>passenger_pk = 3, first_name = ''Emmy'', last_name = ''Noether''\<rparr>],
        bookings := bookings rebooking_db @
          [(example_booking 6 3 1 (Some 7))\<lparr>booking_status := MISSED_CONNECTION\<rparr>,
           (example_booking 7 3 10 None)\<lparr>booking_status := MISSED_CONNECTION\<rparr>,
           (example_booking 8 2 14 None)\<lparr>booking_status := BOOKING_CANCELLED\<rparr>,
           (example_booking 9 2 12 (Some 6))\<lparr>booking_status := MISSED_CONNECTION\<rparr>]\<rparr>"

section \<open>Properties\<close>

subsection \<open>Reset\<close>

lemma filter_map_reset_flight:
  "filter (\<lambda>f. status f = DELAYED) (map reset_flight fs) = []"
  by (induction fs) (simp_all add: reset_flight_def)

lemma filter_map_confirmed:
  "filter (\<lambda>b. booking_status b = MISSED_CONNECTION)
     (map (\<lambda>b. b\<lparr>booking_status := CONFIRMED\<rparr>) bs) = []"
  by (induction bs) simp_all

text \<open>
  C7. After \<^verbatim>\<open>reset_simulation\<close>, whatever the state before: the flights table is
  the old one with every row's actual times set to its scheduled times, delay 0 and
  status SCHEDULED; the bookings table is the old one with every row CONFIRMED; the
  disruption log is empty; the snapshots are the ones saved before; and the world
  state counts no DELAYED flight and no MISSED\_CONNECTION booking.
\<close>

theorem reset_simulation_restores:
  "flights (reset_simulation d) =
     map (\<lambda>f. f\<lparr>actual_dep := Some (scheduled_dep f), actual_arr := Some (scheduled_arr f),
                delay_minutes := Some 0, status := SCHEDULED\<rparr>) (flights d)
   \<and> bookings (reset_simulation d) =
       map (\<lambda>b. b\<lparr>booking_status := CONFIRMED\<rparr>) (bookings d)
   \<and> disruption_log (reset_simulation d) = []
   \<and> simulation_snapshots (reset_simulation d) = simulation_snapshots d
   \<and> delayed_flights (reset_simulation d) = 0
   \<and> missed_connections (reset_simulation d) = 0"
  by (simp add: reset_simulation_def delayed_flights_def missed_connections_def
      filter_map_reset_flight filter_map_confirmed reset_flight_def [abs_def])

subsection \<open>The lifecycle\<close>

lemma tick_keeps_scheduled:
  "status f = SCHEDULED \<Longrightarrow> effective_dep f \<le> now \<Longrightarrow>
   to_landed now (to_active now (to_boarding now f)) = f"
  by (simp add: to_landed_def to_active_def to_boarding_def)

lemma length_flights_tick [simp]:
  "length (flights (update_flight_statuses now d)) = length (flights d)"
  by (simp add: update_flight_statuses_def)

lemma length_flights_ticks [simp]:
  "length (flights (fold update_flight_statuses ticks d)) = length (flights d)"
  by (induction ticks arbitrary: d) simp_all

text \<open>
  C10. A flight that is SCHEDULED and whose effective departure is not after the
  current time is not touched by \<^verbatim>\<open>update_flight_statuses\<close>: the row is the same
  after any number of ticks, each at a time at or after that departure, so its status
  is still SCHEDULED and it never becomes BOARDING, ACTIVE or LANDED.
\<close>

theorem scheduled_past_departure_stays:
  assumes "i < length (flights d)" and "status (flights d ! i) = SCHEDULED"
    and "\<forall>now \<in> set ticks. effective_dep (flights d ! i) \<le> now"
  shows "flights (fold update_flight_statuses ticks d) ! i = flights d ! i
       \<and> status (flights (fold update_flight_statuses ticks d) ! i) = SCHEDULED"
  using assms
proof (induction ticks arbitrary: d)
  case Nil
  then show ?case by simp
next
  case (Cons now ticks)
  have one: "flights (update_flight_statuses now d) ! i = flights d ! i"
    using Cons.prems by (simp add: update_flight_statuses_def tick_keeps_scheduled)
  have "flights (fold update_flight_statuses ticks (update_flight_statuses now d)) ! i
        = flights (update_flight_statuses now d) ! i
      \<and> status (flights (fold update_flight_statuses ticks (update_flight_statuses now d)) ! i)
        = SCHEDULED"
    using Cons.prems one by (intro Cons.IH) simp_all
  then show ?case using one Cons.prems(2) by simp
qed

theorem scheduled_past_departure_stays_witness:
  "status (flights (fold update_flight_statuses [40000, 45000, 60000] rotation_db) ! 0)
     = SCHEDULED
   \<and> effective_dep (flights rotation_db ! 0) = 36000"
proof -
  have a: "0 < length (flights rotation_db)" by code_simp
  have b: "status (flights rotation_db ! 0) = SCHEDULED" by code_simp
  have c: "effective_dep (flights rotation_db ! 0) = 36000" by code_simp
  have "\<forall>now \<in> set [40000, 45000, 60000]. effective_dep (flights rotation_db ! 0) \<le> now"
    unfolding c by simp
  from scheduled_past_departure_stays [OF a b this] b c show ?thesis by simp
qed

subsection \<open>The recursion of the cascade\<close>

lemma calculate_blast_radius_step:
  assumes "\<not> p_depth > 20"
    and "d1 = d\<lparr>flights := delay_target p m (flights d)\<rparr>"
    and "row = select_flight p (flights d1)"
  shows "calculate_blast_radius p m c cf p_depth d =
     (case cascade_target p (Option.bind row aircraft_id) (Option.bind row actual_dep)
             (Option.bind row actual_arr) (flights d1) of
        None \<Rightarrow> check_and_log p m c cf (Option.bind row actual_arr) 0 d1
      | Some (nid, fd) \<Rightarrow>
          (case calculate_blast_radius nid fd (Some (turnaround_cause p)) (Some p)
                  (p_depth + 1) d1 of
             Inl e \<Rightarrow> Inl e
           | Inr d2 \<Rightarrow> check_and_log p m c cf (Option.bind row actual_arr) 1 d2))"
  using assms(1) unfolding assms(2,3)
  by (simp add: calculate_blast_radius.simps [of p m c cf p_depth d] Let_def)

lemma cascade_target_positive:
  "cascade_target p v_a v_d v_arr fs = Some (nid, fd) \<Longrightarrow> fd > 0"
  by (auto simp: cascade_target_def split: option.splits if_splits)

lemma blast_radius_induct [consumes 1, case_names guard leaf cascade]:
  assumes run: "calculate_blast_radius p m c cf dp d = Inr d'"
    and guard: "\<And>p m c cf dp d. dp > 20 \<Longrightarrow> P p m c cf dp d d"
    and leaf: "\<And>p m c cf dp d d1 row d'.
        \<not> dp > 20 \<Longrightarrow> d1 = d\<lparr>flights := delay_target p m (flights d)\<rparr> \<Longrightarrow>
        row = select_flight p (flights d1) \<Longrightarrow>
        check_and_log p m c cf (Option.bind row actual_arr) 0 d1 = Inr d' \<Longrightarrow>
        P p m c cf dp d d'"
    and cascade: "\<And>p m c cf dp d d1 row nid fd d2 d'.
        \<not> dp > 20 \<Longrightarrow> d1 = d\<lparr>flights := delay_target p m (flights d)\<rparr> \<Longrightarrow>
        row = select_flight p (flights d1) \<Longrightarrow> fd > 0 \<Longrightarrow>
        calculate_blast_radius nid fd (Some (turnaround_cause p)) (Some p) (dp + 1) d1 = Inr d2 \<Longrightarrow>
        P nid fd (Some (turnaround_cause p)) (Some p) (dp + 1) d1 d2 \<Longrightarrow>
        check_and_log p m c cf (Option.bind row actual_arr) 1 d2 = Inr d' \<Longrightarrow>
        P p m c cf dp d d'"
  shows "P p m c cf dp d d'"
  using run
proof (induction p m c cf dp d arbitrary: d' rule: calculate_blast_radius.induct)
  case (1 p m c cf dp d)
  show ?case
  proof (cases "dp > 20")
    case True
    then show ?thesis using "1.prems" guard by (simp add: calculate_blast_radius.simps)
  next
    case False
    define d1 where "d1 = d\<lparr>flights := delay_target p m (flights d)\<rparr>"
    define row where "row = select_flight p (flights d1)"
    define tgt where "tgt = cascade_target p (Option.bind row aircraft_id)
       (Option.bind row actual_dep) (Option.bind row actual_arr) (flights d1)"
    note step = calculate_blast_radius_step [OF False d1_def row_def, where c = c and cf = cf,
      folded tgt_def]
    show ?thesis
    proof (cases tgt)
      case None
      then have "check_and_log p m c cf (Option.bind row actual_arr) 0 d1 = Inr d'"
        using "1.prems" step by simp
      then show ?thesis using leaf False d1_def row_def by blast
    next
      case (Some t)
      obtain nid fd where t: "t = (nid, fd)" by (cases t)
      from Some t "1.prems" step obtain d2 where
        rec: "calculate_blast_radius nid fd (Some (turnaround_cause p)) (Some p) (dp + 1) d1 = Inr d2"
        and fin: "check_and_log p m c cf (Option.bind row actual_arr) 1 d2 = Inr d'"
        by (auto split: sum.splits)
      have pos: "fd > 0"
        using Some t cascade_target_positive unfolding tgt_def by blast
      have "P nid fd (Some (turnaround_cause p)) (Some p) (dp + 1) d1 d2"
        using "1.IH" [OF False d1_def row_def refl refl refl _ _ rec] Some t
        unfolding tgt_def by simp
      then show ?thesis using cascade [OF False d1_def row_def pos rec _ fin] by blast
    qed
  qed
qed

lemma check_connection_log:
  "disruption_log (fst (check_connection a r s)) = disruption_log (fst s)"
  by (simp add: check_connection_def split: prod.splits)

lemma check_connection_flights:
  "flights (fst (check_connection a r s)) = flights (fst s)"
  by (simp add: check_connection_def split: prod.splits)

lemma connection_check_log [simp]:
  "disruption_log (fst (connection_check p a d)) = disruption_log d"
proof -
  have "disruption_log (fst (fold (check_connection a) rs s)) = disruption_log (fst s)" for rs s
    by (induction rs arbitrary: s) (simp_all add: check_connection_log)
  then show ?thesis by (simp add: connection_check_def)
qed

lemma connection_check_flights [simp]:
  "flights (fst (connection_check p a d)) = flights d"
proof -
  have "flights (fst (fold (check_connection a) rs s)) = flights (fst s)" for rs s
    by (induction rs arbitrary: s) (simp_all add: check_connection_flights)
  then show ?thesis by (simp add: connection_check_def)
qed

lemma check_and_log_flights:
  "check_and_log p m c cf a k d = Inr d' \<Longrightarrow> flights d' = flights d"
  by (auto simp: check_and_log_def log_disruption_def split: prod.splits if_splits
      dest: arg_cong [where f = "\<lambda>x. flights (fst x)"])

lemma check_and_log_log:
  "check_and_log p m c cf a k d = Inr d' \<Longrightarrow>
   \<exists>n. disruption_log d' = disruption_log d @
     [\<lparr>log_flight_id = p, log_delay_minutes = m, cause = c, cascaded_from_flight_id = cf,
       passengers_impacted = n, flights_impacted = k\<rparr>]"
  by (auto simp: check_and_log_def log_disruption_def split: prod.splits if_splits
      dest: arg_cong [where f = "\<lambda>x. disruption_log (fst x)"])

lemma list_all2_map_same:
  "(\<And>x. R x (g x)) \<Longrightarrow> list_all2 R xs (map g xs)"
  by (simp add: list_all2_map2 list_all2_same)

lemma blast_radius_flights_rel:
  assumes run: "calculate_blast_radius p m c cf dp d = Inr d'"
    and ok: "Pm m" and pos: "\<And>k. k > 0 \<Longrightarrow> Pm k"
    and refl: "\<And>f. R f f" and trans: "\<And>f g h. R f g \<Longrightarrow> R g h \<Longrightarrow> R f h"
    and delay: "\<And>k f. Pm k \<Longrightarrow> R f (delay_flight k f)"
  shows "list_all2 R (flights d) (flights d')"
proof -
  have target: "list_all2 R fs (delay_target p k fs)" if "Pm k" for p k fs
    unfolding delay_target_def using that refl delay by (intro list_all2_map_same) simp
  from run have "Pm m \<longrightarrow> list_all2 R (flights d) (flights d')"
  proof (induction rule: blast_radius_induct)
    case (guard p m c cf dp d)
    show ?case using refl by (simp add: list_all2_same)
  next
    case (leaf p m c cf dp d d1 row d')
    show ?case
      using target [where p = p and k = m and fs = "flights d"] check_and_log_flights [OF leaf(4)] leaf(2) by simp
  next
    case (cascade p m c cf dp d d1 row nid fd d2 d')
    show ?case
    proof
      assume "Pm m"
      then have a: "list_all2 R (flights d) (flights d1)"
        using target [where p = p and k = m and fs = "flights d"] cascade.hyps(2) by simp
      have b: "list_all2 R (flights d1) (flights d2)"
        using cascade.IH pos [OF cascade.hyps(4)] by simp
      have "list_all2 R (flights d) (flights d2)"
        using list_all2_trans [of R R R, OF _ a b] trans by blast
      then show "list_all2 R (flights d) (flights d')"
        using check_and_log_flights [OF cascade.hyps(6)] by simp
    qed
  qed
  then show ?thesis using ok by simp
qed

text \<open>
  C2. A call of \<^verbatim>\<open>calculate_blast_radius\<close> with \<open>p_depth > 20\<close> returns at once and
  the database is unchanged. The function is defined by recursion on \<open>21 - p_depth\<close>
  (the termination proof above), so every call returns, whatever the rotation of the
  aircraft. Every invocation that passes the guard appends exactly one row to the
  disruption log, so the bound on the new rows of the log bounds the invocations of one
  cascade: a call at depth \<open>p_depth\<close> runs at most \<open>21 - p_depth\<close> of them, the root
  and 20 hops from depth 0. On the chain of 23 legs the cascade stops after the 21st;
  on the two flights that are each other's next flight it stops after one hop.
\<close>

theorem cascade_depth_bounded:
  "(p_depth > 20 \<longrightarrow> calculate_blast_radius p m c cf p_depth d = Inr d)
   \<and> (\<forall>d'. calculate_blast_radius p m c cf p_depth d = Inr d' \<longrightarrow>
         length (disruption_log d') \<le> length (disruption_log d) + nat (21 - p_depth))"
proof (intro conjI allI impI)
  assume "p_depth > 20"
  then show "calculate_blast_radius p m c cf p_depth d = Inr d"
    by (simp add: calculate_blast_radius.simps)
next
  fix d'
  assume "calculate_blast_radius p m c cf p_depth d = Inr d'"
  then show "length (disruption_log d') \<le> length (disruption_log d) + nat (21 - p_depth)"
  proof (induction rule: blast_radius_induct)
    case (guard p m c cf dp d)
    then show ?case by simp
  next
    case (leaf p m c cf dp d d1 row d')
    then show ?case using check_and_log_log [OF leaf(4)] by auto
  next
    case (cascade p m c cf dp d d1 row nid fd d2 d')
    show ?case
      using check_and_log_log [OF cascade.hyps(6)] cascade.IH cascade.hyps(1,2) by auto
  qed
qed

theorem cascade_depth_bounded_witness:
  "calculate_blast_radius 1 10 None None 21 chain_db = Inr chain_db
   \<and> map_sum id (\<lambda>d. (map cumulative_delay (flights d), length (disruption_log d)))
       (calculate_blast_radius 1 10 None None 0 chain_db)
     = Inr ([10, 10, 10, 10, 10, 10, 10, 10, 10, 10, 10, 10, 10, 10, 10, 10, 10, 10, 10, 10,
             10, 0, 0], 21)
   \<and> map (map_option flight_pk)
       [next_flight 1 (Some 7) (Some 36000) (flights twin_db),
        next_flight 2 (Some 7) (Some 36000) (flights twin_db)] = [Some 2, Some 1]
   \<and> map_sum id (\<lambda>d. (map cumulative_delay (flights d), length (disruption_log d)))
       (calculate_blast_radius 1 0 None None 0 twin_db) = Inr ([0, 165], 2)"
proof -
  have run: "map_sum id (\<lambda>d. (map cumulative_delay (flights d), length (disruption_log d)))
       (calculate_blast_radius 1 10 None None 0 chain_db)
     = Inr ([10, 10, 10, 10, 10, 10, 10, 10, 10, 10, 10, 10, 10, 10, 10, 10, 10, 10, 10, 10,
             10, 0, 0], 21)"
    by code_simp
  have twins: "map (map_option flight_pk)
       [next_flight 1 (Some 7) (Some 36000) (flights twin_db),
        next_flight 2 (Some 7) (Some 36000) (flights twin_db)] = [Some 2, Some 1]"
    by code_simp
  have twin_run: "map_sum id (\<lambda>d. (map cumulative_delay (flights d), length (disruption_log d)))
       (calculate_blast_radius 1 0 None None 0 twin_db) = Inr ([0, 165], 2)"
    by code_simp
  from cascade_depth_bounded [of 21 1 10 None None chain_db]
    cascade_depth_bounded [of 0 1 10 None None chain_db]
    cascade_depth_bounded [of 0 1 0 None None twin_db] run twins twin_run
  show ?thesis by simp
qed

subsection \<open>The next flight of the aircraft\<close>

lemma sort_key_head:
  "sort_key k xs = y # ys \<Longrightarrow> y \<in> set xs \<and> (\<forall>x \<in> set xs. k y \<le> k x)"
proof -
  assume h: "sort_key k xs = y # ys"
  have "set (sort_key k xs) = set xs" by simp
  then have s: "set xs = insert y (set ys)" using h by simp
  have "sorted (map k (sort_key k xs))" by simp
  then have "\<forall>x \<in> set ys. k y \<le> k x" using h by simp
  then show ?thesis using s by auto
qed

lemma order_by_limit_1:
  "order_by_limit (Suc 0) k xs = (case sort_key k xs of [] \<Rightarrow> [] | y # _ \<Rightarrow> [y])"
  by (simp add: order_by_limit_def split: list.splits)

lemma sort_key_Nil_iff: "sort_key k xs = [] \<longleftrightarrow> xs = []"
  by (metis length_sort length_0_conv)

lemma next_flight_None_iff:
  "next_flight p (Some a) (Some t) fs = None \<longleftrightarrow>
   (\<forall>f \<in> set fs. \<not> turnaround_candidate p a t f)"
proof -
  let ?c = "filter (turnaround_candidate p a t) fs"
  have "next_flight p (Some a) (Some t) fs = None \<longleftrightarrow> sort_key effective_dep ?c = []"
    by (simp add: next_flight_def order_by_limit_1 split: list.splits)
  also have "\<dots> \<longleftrightarrow> ?c = []"
    by (rule sort_key_Nil_iff)
  also have "\<dots> \<longleftrightarrow> (\<forall>f \<in> set fs. \<not> turnaround_candidate p a t f)"
    by (simp add: filter_empty_conv)
  finally show ?thesis .
qed

lemma next_flight_Some:
  assumes "next_flight p v_a v_t fs = Some nf"
  shows "\<exists>a t. v_a = Some a \<and> v_t = Some t \<and> nf \<in> set fs \<and> turnaround_candidate p a t nf
     \<and> (\<forall>g \<in> set fs. turnaround_candidate p a t g \<longrightarrow> effective_dep nf \<le> effective_dep g)"
proof -
  from assms obtain a t where a: "v_a = Some a" and t: "v_t = Some t"
    by (auto simp: next_flight_def split: option.splits)
  from assms a t obtain ys where
    "sort_key effective_dep (filter (turnaround_candidate p a t) fs) = nf # ys"
    by (auto simp: next_flight_def order_by_limit_1 split: list.splits)
  from sort_key_head [OF this] show ?thesis using a t by auto
qed

lemma select_flight_delayed:
  "select_flight p (delay_target p m fs0) = Some tf \<Longrightarrow>
   \<exists>f0. tf = delay_flight m f0 \<and> flight_pk f0 = p"
  by (induction fs0) (auto simp: select_flight_def delay_target_def delay_flight_def
      split: if_splits)

text \<open>
  C1, as the code has it. After step 1 has delayed the target flight \<open>tf\<close>, the
  candidate of the turnaround cascade is a flight of the table other than the target,
  on the target's aircraft, neither LANDED nor CANCELLED, whose effective departure is
  at or after the target's new \<^emph>\<open>departure\<close>, and no such flight departs earlier;
  there is no candidate exactly when no flight of the table meets these conditions.
\<close>

theorem next_flight_earliest_after_new_departure:
  assumes "fs = delay_target p m fs0" and "select_flight p fs = Some tf"
  shows "actual_dep tf = Some (effective_dep tf)
    \<and> (case next_flight p (aircraft_id tf) (actual_dep tf) fs of
         None \<Rightarrow>
           \<forall>g \<in> set fs. \<not> (flight_pk g \<noteq> p \<and> aircraft_id g \<noteq> None
                \<and> aircraft_id g = aircraft_id tf
                \<and> status g \<noteq> LANDED \<and> status g \<noteq> CANCELLED
                \<and> effective_dep tf \<le> effective_dep g)
       | Some nf \<Rightarrow>
           nf \<in> set fs \<and> flight_pk nf \<noteq> p \<and> aircraft_id nf \<noteq> None
           \<and> aircraft_id nf = aircraft_id tf
           \<and> status nf \<noteq> LANDED \<and> status nf \<noteq> CANCELLED
           \<and> effective_dep tf \<le> effective_dep nf
           \<and> (\<forall>g \<in> set fs. flight_pk g \<noteq> p \<and> aircraft_id g \<noteq> None
                  \<and> aircraft_id g = aircraft_id tf
                  \<and> status g \<noteq> LANDED \<and> status g \<noteq> CANCELLED
                  \<and> effective_dep tf \<le> effective_dep g
                \<longrightarrow> effective_dep nf \<le> effective_dep g))"
proof -
  have dep: "actual_dep tf = Some (effective_dep tf)"
    using select_flight_delayed [OF assms(2) [unfolded assms(1)]]
    by (auto simp: delay_flight_def effective_dep_def)
  show ?thesis
  proof (cases "next_flight p (aircraft_id tf) (actual_dep tf) fs")
    case None
    show ?thesis
    proof (cases "aircraft_id tf")
      case no_aircraft: None
      then show ?thesis using None dep by (auto split: option.splits)
    next
      case (Some a)
      then show ?thesis
        using None dep next_flight_None_iff [of p a "effective_dep tf" fs]
        by (auto simp: turnaround_candidate_def)
    qed
  next
    case (Some nf)
    from next_flight_Some [OF Some] show ?thesis
      using Some dep by (auto simp: turnaround_candidate_def)
  qed
qed

theorem next_flight_earliest_after_new_departure_witness:
  "select_flight 1 (delay_target 1 120 (flights rotation_db))
     = Some (delay_flight 120 (example_flight 1 (Some 7) 36000 43200))
   \<and> next_flight 1 (Some 7) (Some 43200) (delay_target 1 120 (flights rotation_db))
     = Some (example_flight 2 (Some 7) 46800 54000)
   \<and> effective_dep (delay_flight 120 (example_flight 1 (Some 7) 36000 43200))
     \<le> effective_dep (example_flight 2 (Some 7) 46800 54000)"
proof -
  let ?tf = "delay_flight 120 (example_flight 1 (Some 7) 36000 43200)"
  have sel: "select_flight 1 (delay_target 1 120 (flights rotation_db)) = Some ?tf"
    by code_simp
  have a: "aircraft_id ?tf = Some 7" by code_simp
  have t: "actual_dep ?tf = Some 43200" by code_simp
  have nf: "next_flight 1 (Some 7) (Some 43200) (delay_target 1 120 (flights rotation_db))
     = Some (example_flight 2 (Some 7) 46800 54000)"
    by code_simp
  from next_flight_earliest_after_new_departure [OF refl sel] sel nf
  show ?thesis unfolding a t by simp
qed

text \<open>
  C1 as it is written fails: flight 1 of the rotation, delayed by 120 minutes, now
  departs at 12:00 and arrives at 14:00; flight 2 departs at 13:00, before that
  arrival. Searched from the new arrival, as C1 has it, the table holds no candidate;
  searched from the new departure, as the code does, flight 2 is the candidate, and
  the cascade delays it by \<open>45 + 60 = 105\<close> minutes.
\<close>

theorem next_flight_before_new_arrival:
  "actual_dep (delay_flight 120 (example_flight 1 (Some 7) 36000 43200)) = Some 43200
   \<and> actual_arr (delay_flight 120 (example_flight 1 (Some 7) 36000 43200)) = Some 50400
   \<and> next_flight 1 (Some 7) (Some 50400) (delay_target 1 120 (flights rotation_db)) = None
   \<and> next_flight 1 (Some 7) (Some 43200) (delay_target 1 120 (flights rotation_db))
     = Some (example_flight 2 (Some 7) 46800 54000)
   \<and> effective_dep (example_flight 2 (Some 7) 46800 54000) = 46800
   \<and> map_sum id (map cumulative_delay \<circ> flights)
       (calculate_blast_radius 1 120 None None 0 rotation_db) = Inr [120, 105]"
  by code_simp

subsection \<open>The forced delay\<close>

lemma select_flight_arr:
  "select_flight p (delay_target p m fs0) = Some tf \<Longrightarrow>
   actual_arr tf = Some (effective_arr tf) \<and> actual_dep tf = Some (effective_dep tf)"
  by (auto dest!: select_flight_delayed simp: delay_flight_def effective_arr_def effective_dep_def)

lemma minutes_between_whole: "minutes_between (a + minutes k) a = k"
  by (simp add: minutes_between_def int_div_def minutes_def abs_mult sgn_mult mult_sgn_abs)

text \<open>
  C4. When step 2 finds a next flight \<open>nf\<close> for the delayed flight \<open>tf\<close>, the
  forced delay is 45 minus the minutes between the departure of \<open>nf\<close> and the new
  arrival of \<open>tf\<close>. The call recurses on \<open>nf\<close> with that delay, one level deeper,
  exactly when it is strictly positive, and records one impacted flight; otherwise it
  goes on to steps 3 and 4 on the database of step 1, with no impacted flight. A next
  flight that departs exactly 45 minutes after the new arrival gets forced delay 0 (no
  cascade); one that departs 44 minutes after gets forced delay 1.
\<close>

theorem turnaround_forced_delay:
  assumes "\<not> p_depth > 20"
    and "d1 = d\<lparr>flights := delay_target p m (flights d)\<rparr>"
    and "select_flight p (flights d1) = Some tf"
    and "next_flight p (aircraft_id tf) (actual_dep tf) (flights d1) = Some nf"
    and "v_forced_delay = 45 - minutes_between (effective_dep nf) (effective_arr tf)"
  shows "calculate_blast_radius p m c cf p_depth d =
      (if v_forced_delay > 0
       then (case calculate_blast_radius (flight_pk nf) v_forced_delay
                    (Some (turnaround_cause p)) (Some p) (p_depth + 1) d1 of
               Inl e \<Rightarrow> Inl e
             | Inr d2 \<Rightarrow> check_and_log p m c cf (Some (effective_arr tf)) 1 d2)
       else check_and_log p m c cf (Some (effective_arr tf)) 0 d1)
    \<and> (effective_dep nf = effective_arr tf + minutes 45 \<longrightarrow> v_forced_delay = 0)
    \<and> (effective_dep nf = effective_arr tf + minutes 44 \<longrightarrow> v_forced_delay = 1)"
proof -
  have times: "actual_arr tf = Some (effective_arr tf)"
    using select_flight_arr assms(2,3) by simp
  have tgt: "cascade_target p (aircraft_id tf) (actual_dep tf) (Some (effective_arr tf))
        (flights d1)
      = (if v_forced_delay > 0 then Some (flight_pk nf, v_forced_delay) else None)"
    using assms(4,5) by (simp add: cascade_target_def forced_delay_def)
  have "calculate_blast_radius p m c cf p_depth d =
      (if v_forced_delay > 0
       then (case calculate_blast_radius (flight_pk nf) v_forced_delay
                    (Some (turnaround_cause p)) (Some p) (p_depth + 1) d1 of
               Inl e \<Rightarrow> Inl e
             | Inr d2 \<Rightarrow> check_and_log p m c cf (Some (effective_arr tf)) 1 d2)
       else check_and_log p m c cf (Some (effective_arr tf)) 0 d1)"
    using calculate_blast_radius_step [OF assms(1,2) assms(3) [symmetric], of c cf,
        unfolded Option.bind.simps times tgt]
    by simp
  then show ?thesis using assms(5) by (simp add: minutes_between_whole)
qed

theorem turnaround_forced_delay_witness:
  "map_sum id (\<lambda>d. map cumulative_delay (flights d))
       (calculate_blast_radius 1 60 None None 0 (turnaround_db 45)) = Inr [60, 0]
   \<and> map_sum id (\<lambda>d. map cumulative_delay (flights d))
       (calculate_blast_radius 1 60 None None 0 (turnaround_db 44)) = Inr [60, 1]"
proof -
  let ?tf = "delay_flight 60 (example_flight 1 (Some 7) 36000 43200)"
  let ?d45 = "(turnaround_db 45)\<lparr>flights := delay_target 1 60 (flights (turnaround_db 45))\<rparr>"
  let ?d44 = "(turnaround_db 44)\<lparr>flights := delay_target 1 60 (flights (turnaround_db 44))\<rparr>"
  have d: "\<not> (0::int) > 20" by simp
  have s45: "select_flight 1 (flights ?d45) = Some ?tf" by code_simp
  have s44: "select_flight 1 (flights ?d44) = Some ?tf" by code_simp
  have n45: "next_flight 1 (aircraft_id ?tf) (actual_dep ?tf) (flights ?d45)
      = Some (example_flight 2 (Some 7) 49500 56700)" by code_simp
  have n44: "next_flight 1 (aircraft_id ?tf) (actual_dep ?tf) (flights ?d44)
      = Some (example_flight 2 (Some 7) 49440 56640)" by code_simp
  have f45: "(0::int) = 45 - minutes_between (effective_dep (example_flight 2 (Some 7) 49500 56700))
      (effective_arr ?tf)" by code_simp
  have f44: "(1::int) = 45 - minutes_between (effective_dep (example_flight 2 (Some 7) 49440 56640))
      (effective_arr ?tf)" by code_simp
  have r45: "map_sum id (\<lambda>d. map cumulative_delay (flights d))
      (check_and_log 1 60 None None (Some (effective_arr ?tf)) 0 ?d45) = Inr [60, 0]"
    by code_simp
  have r44: "map_sum id (\<lambda>d. map cumulative_delay (flights d))
      (case calculate_blast_radius (flight_pk (example_flight 2 (Some 7) 49440 56640)) 1
              (Some (turnaround_cause 1)) (Some 1) (0 + 1) ?d44 of
         Inl e \<Rightarrow> Inl e
       | Inr d2 \<Rightarrow> check_and_log 1 60 None None (Some (effective_arr ?tf)) 1 d2) = Inr [60, 1]"
    by code_simp
  from turnaround_forced_delay [OF d refl s45 n45 f45, of None None]
    turnaround_forced_delay [OF d refl s44 n44 f44, of None None] r45 r44
  show ?thesis by simp
qed

subsection \<open>Broken connections\<close>

lemma find_booking_marked:
  "find (\<lambda>b. booking_pk b = n)
     (map (\<lambda>b. if Q b then b\<lparr>booking_status := s\<rparr> else b) bs)
   = map_option (\<lambda>b. if Q b then b\<lparr>booking_status := s\<rparr> else b)
       (find (\<lambda>b. booking_pk b = n) bs)"
  by (induction bs) auto

lemma next_flight_dep_marked:
  "next_flight_dep (d\<lparr>bookings := map (\<lambda>b. if Q b then b\<lparr>booking_status := s\<rparr> else b) bs\<rparr>) n
   = next_flight_dep (d\<lparr>bookings := bs\<rparr>) n"
  by (simp add: next_flight_dep_def find_booking_marked split: option.splits)

lemma mark_missed_marked:
  "mark_missed i (map (\<lambda>b. if booking_pk b \<in> S then b\<lparr>booking_status := MISSED_CONNECTION\<rparr>
                              else b) bs)
   = map (\<lambda>b. if booking_pk b \<in> insert i S then b\<lparr>booking_status := MISSED_CONNECTION\<rparr>
               else b) bs"
  by (induction bs) (auto simp: mark_missed_def)

lemma fold_check_connection:
  "fold (check_connection v) rows
     (d\<lparr>bookings := map (\<lambda>b. if booking_pk b \<in> S
                               then b\<lparr>booking_status := MISSED_CONNECTION\<rparr> else b)
                         (bookings d)\<rparr>, k)
   = (d\<lparr>bookings :=
          map (\<lambda>b. if booking_pk b \<in> S \<union> {i. \<exists>r \<in> set rows.
                          connection_broken (next_flight_dep d (snd r)) v
                          \<and> (i = fst r \<or> i = snd r)}
                    then b\<lparr>booking_status := MISSED_CONNECTION\<rparr> else b)
              (bookings d)\<rparr>,
      k + int (length (filter (\<lambda>r. connection_broken (next_flight_dep d (snd r)) v) rows)))"
proof (induction rows arbitrary: S k)
  case Nil
  then show ?case by simp
next
  case (Cons r rows)
  obtain i n where r: "r = (i, n)" by (cases r)
  let ?brk = "\<lambda>r. connection_broken (next_flight_dep d (snd r)) v"
  let ?mk = "\<lambda>S. map (\<lambda>b. if booking_pk b \<in> S
                               then b\<lparr>booking_status := MISSED_CONNECTION\<rparr> else b) (bookings d)"
  have dep: "next_flight_dep (d\<lparr>bookings := ?mk S\<rparr>) n = next_flight_dep d n"
    using next_flight_dep_marked [where d = d and Q = "\<lambda>b. booking_pk b \<in> S"
        and s = MISSED_CONNECTION and bs = "bookings d" and n = n]
    by simp
  show ?case
  proof (cases "?brk r")
    case True
    have both: "mark_missed n (mark_missed i (?mk S)) = ?mk (insert n (insert i S))"
      by (simp only: mark_missed_marked)
    have step: "check_connection v r (d\<lparr>bookings := ?mk S\<rparr>, k)
        = (d\<lparr>bookings := ?mk (insert n (insert i S))\<rparr>, k + 1)"
      using True r dep by (simp add: check_connection_def both)
    have sets: "insert n (insert i S) \<union> {j. \<exists>r \<in> set rows. ?brk r \<and> (j = fst r \<or> j = snd r)}
        = S \<union> {j. \<exists>r' \<in> set (r # rows). ?brk r' \<and> (j = fst r' \<or> j = snd r')}"
      using True r by auto
    show ?thesis
      using Cons.IH [of "insert n (insert i S)" "k + 1"] True
      unfolding fold_Cons comp_def step sets by simp
  next
    case False
    have step: "check_connection v r (d\<lparr>bookings := ?mk S\<rparr>, k) = (d\<lparr>bookings := ?mk S\<rparr>, k)"
      using False r dep by (simp add: check_connection_def)
    have sets: "S \<union> {j. \<exists>r \<in> set rows. ?brk r \<and> (j = fst r \<or> j = snd r)}
        = S \<union> {j. \<exists>r' \<in> set (r # rows). ?brk r' \<and> (j = fst r' \<or> j = snd r')}"
      using False by auto
    show ?thesis
      using Cons.IH [of S k] False
      unfolding fold_Cons comp_def step sets by simp
  qed
qed

lemma connection_broken_some:
  "connection_broken v_dep (Some a) \<longleftrightarrow>
   (case v_dep of None \<Rightarrow> False | Some t \<Rightarrow> minutes_between t a < 30)"
  by (simp add: connection_broken_def split: option.splits)

lemma misses_connection_dep:
  "misses_connection d p a b \<longleftrightarrow>
   flight_id b = p \<and> booking_status b = CONFIRMED
   \<and> (case next_booking_id b of
        None \<Rightarrow> False
      | Some n \<Rightarrow>
          (case next_flight_dep d n of None \<Rightarrow> False | Some t \<Rightarrow> minutes_between t a < 30))"
  by (simp add: misses_connection_def next_flight_dep_def effective_dep_def
      split: option.splits)

lemma broken_rows_count:
  "length (filter (\<lambda>r. connection_broken (next_flight_dep d (snd r)) (Some a))
       (connecting_bookings p bs))
   = length (filter (misses_connection d p a) bs)"
  by (induction bs)
    (auto simp: connecting_bookings_def map_filter_simps misses_connection_dep
      connection_broken_some split: option.splits)

lemma broken_rows_ids:
  "(\<exists>r \<in> set (connecting_bookings p bs).
       connection_broken (next_flight_dep d (snd r)) (Some a) \<and> (i = fst r \<or> i = snd r))
   \<longleftrightarrow> (\<exists>b \<in> set bs. misses_connection d p a b
         \<and> (i = booking_pk b \<or> next_booking_id b = Some i))"
  by (induction bs)
    (auto simp: connecting_bookings_def misses_connection_dep
      connection_broken_some split: option.splits)

lemma find_by_key:
  "distinct (map k xs) \<Longrightarrow> x \<in> set xs \<Longrightarrow> find (\<lambda>y. k y = k x) xs = Some x"
  by (induction xs) (auto intro: rev_image_eqI)

lemma next_flight_dep_same_flight:
  assumes "distinct (map booking_pk (bookings d))"
    and "b \<in> set (bookings d)" and "b' \<in> set (bookings d)" and "flight_id b = flight_id b'"
  shows "next_flight_dep d (booking_pk b) = next_flight_dep d (booking_pk b')"
  using find_by_key [OF assms(1,2)] find_by_key [OF assms(1,3)] assms(4)
  by (simp add: next_flight_dep_def)

lemma misses_connection_iff:
  "misses_connection d p a b \<longleftrightarrow>
   flight_id b = p \<and> booking_status b = CONFIRMED
   \<and> (\<exists>n t. next_booking_id b = Some n \<and> next_flight_dep d n = Some t
         \<and> minutes_between t a < 30)"
  by (auto simp: misses_connection_dep split: option.splits)

lemma both_marked_iff:
  assumes dist: "distinct (map booking_pk (bookings d))"
    and b: "b \<in> set (bookings d)" "flight_id b = p" "booking_status b = CONFIRMED"
      "next_booking_id b = Some n"
  shows "connection_marked d p a (booking_pk b) \<and> connection_marked d p a n
     \<longleftrightarrow> (\<exists>t. next_flight_dep d n = Some t \<and> minutes_between t a < 30)"
proof
  assume "\<exists>t. next_flight_dep d n = Some t \<and> minutes_between t a < 30"
  then have "misses_connection d p a b"
    using b by (auto simp: misses_connection_iff)
  then show "connection_marked d p a (booking_pk b) \<and> connection_marked d p a n"
    using b unfolding connection_marked_def by blast
next
  assume marked: "connection_marked d p a (booking_pk b) \<and> connection_marked d p a n"
  show "\<exists>t. next_flight_dep d n = Some t \<and> minutes_between t a < 30"
  proof (rule ccontr)
    assume kept: "\<not> (\<exists>t. next_flight_dep d n = Some t \<and> minutes_between t a < 30)"
    then have nb: "\<not> misses_connection d p a b"
      using b by (auto simp: misses_connection_iff)
    from marked obtain r where r: "r \<in> set (bookings d)" "misses_connection d p a r"
        "booking_pk b = booking_pk r \<or> next_booking_id r = Some (booking_pk b)"
      unfolding connection_marked_def by blast
    from marked obtain r' where r': "r' \<in> set (bookings d)" "misses_connection d p a r'"
        "n = booking_pk r' \<or> next_booking_id r' = Some n"
      unfolding connection_marked_def by blast
    have "next_booking_id r' \<noteq> Some n"
      using r'(2) kept by (auto simp: misses_connection_iff)
    then have n: "n = booking_pk r'" using r'(3) by simp
    have "flight_id r' = flight_id b"
      using r'(2) b(2) by (simp add: misses_connection_iff)
    then have same: "next_flight_dep d n = next_flight_dep d (booking_pk b)"
      unfolding n using next_flight_dep_same_flight [OF dist r'(1) b(1)] by simp
    have "booking_pk b \<noteq> booking_pk r"
    proof
      assume "booking_pk b = booking_pk r"
      then have "b = r"
        using dist b(1) r(1) by (auto simp: distinct_map inj_on_def)
      then show False using nb r(2) by simp
    qed
    then have "next_booking_id r = Some (booking_pk b)" using r(3) by simp
    then have "\<exists>t. next_flight_dep d (booking_pk b) = Some t \<and> minutes_between t a < 30"
      using r(2) by (auto simp: misses_connection_iff)
    then show False using kept same by simp
  qed
qed

lemma connection_check_marks:
  "connection_check p (Some a) d =
     (d\<lparr>bookings :=
          map (\<lambda>x. if connection_marked d p a (booking_pk x)
                    then x\<lparr>booking_status := MISSED_CONNECTION\<rparr> else x)
              (bookings d)\<rparr>,
      int (length (filter (misses_connection d p a) (bookings d))))"
proof -
  let ?rows = "connecting_bookings p (bookings d)"
  let ?brk = "\<lambda>r. connection_broken (next_flight_dep d (snd r)) (Some a)"
  have start: "d\<lparr>bookings := map (\<lambda>b. if booking_pk b \<in> {}
                     then b\<lparr>booking_status := MISSED_CONNECTION\<rparr> else b) (bookings d)\<rparr> = d"
    by simp
  have "connection_check p (Some a) d = fold (check_connection (Some a)) ?rows (d, 0)"
    by (simp add: connection_check_def)
  also have "\<dots> = (d\<lparr>bookings :=
          map (\<lambda>b. if booking_pk b \<in> {} \<union> {i. \<exists>r \<in> set ?rows. ?brk r \<and> (i = fst r \<or> i = snd r)}
                    then b\<lparr>booking_status := MISSED_CONNECTION\<rparr> else b)
              (bookings d)\<rparr>,
      0 + int (length (filter ?brk ?rows)))"
    using fold_check_connection [where v = "Some a" and rows = ?rows and d = d and S = "{}"
        and k = 0] unfolding start .
  finally show ?thesis
    by (simp add: broken_rows_ids broken_rows_count connection_marked_def)
qed

lemma check_and_log_marks:
  assumes "flight_exists d p" and "case cf of None \<Rightarrow> True | Some c' \<Rightarrow> flight_exists d c'"
  shows "check_and_log p m c cf (Some a) k d =
     Inr (d\<lparr>bookings :=
              map (\<lambda>x. if connection_marked d p a (booking_pk x)
                        then x\<lparr>booking_status := MISSED_CONNECTION\<rparr> else x)
                  (bookings d),
            disruption_log := disruption_log d @
              [\<lparr>log_flight_id = p, log_delay_minutes = m, cause = c,
                cascaded_from_flight_id = cf,
                passengers_impacted = int (length (filter (misses_connection d p a) (bookings d))),
                flights_impacted = k\<rparr>]\<rparr>)"
  using assms
  by (simp add: check_and_log_def connection_check_marks log_disruption_def flight_exists_def
      split: option.splits)

lemma flight_keys_delay_target [simp]:
  "map flight_pk (delay_target p m fs) = map flight_pk fs"
  by (induction fs) (simp_all add: delay_target_def delay_flight_def)

lemma blast_radius_flight_keys:
  assumes "calculate_blast_radius p m c cf dp d = Inr d'"
  shows "map flight_pk (flights d') = map flight_pk (flights d)"
proof -
  have "list_all2 (\<lambda>f f'. flight_pk f' = flight_pk f) (flights d) (flights d')"
    using assms
    by (rule blast_radius_flights_rel [where Pm = "\<lambda>_. True"])
      (simp_all add: delay_flight_def)
  then show ?thesis
    by (induction rule: list_all2_induct) simp_all
qed

lemma check_connection_booking_keys:
  "map booking_pk (bookings (fst (check_connection a r s))) = map booking_pk (bookings (fst s))"
  by (auto simp: check_connection_def mark_missed_def split: prod.splits)

lemma check_and_log_booking_keys:
  assumes "check_and_log p m c cf a k d = Inr d'"
  shows "map booking_pk (bookings d') = map booking_pk (bookings d)"
proof -
  have "map booking_pk (bookings (fst (fold (check_connection a) rs s)))
      = map booking_pk (bookings (fst s))" for rs s
    by (induction rs arbitrary: s) (simp_all add: check_connection_booking_keys)
  then have "map booking_pk (bookings (fst (connection_check p a d))) = map booking_pk (bookings d)"
    by (simp add: connection_check_def)
  moreover have "bookings d' = bookings (fst (connection_check p a d))"
    using assms
    by (auto simp: check_and_log_def log_disruption_def split: prod.splits if_splits)
  ultimately show ?thesis by simp
qed

lemma blast_radius_booking_keys:
  assumes "calculate_blast_radius p m c cf dp d = Inr d'"
  shows "map booking_pk (bookings d') = map booking_pk (bookings d)"
  using assms
proof (induction rule: blast_radius_induct)
  case (guard p m c cf dp d)
  show ?case by simp
next
  case (leaf p m c cf dp d d1 row d')
  show ?case using check_and_log_booking_keys [OF leaf(4)] leaf(2) by simp
next
  case (cascade p m c cf dp d d1 row nid fd d2 d')
  show ?case
    using check_and_log_booking_keys [OF cascade.hyps(6)] cascade.IH cascade.hyps(2) by simp
qed

lemma find_in_set: "find P xs = Some x \<Longrightarrow> x \<in> set xs \<and> P x"
  by (auto simp: find_Some_iff)

lemma linked_departure_iff:
  assumes "distinct (map booking_pk (bookings d))" and "distinct (map flight_pk (flights d))"
  shows "(\<exists>t. next_flight_dep d n = Some t \<and> minutes_between t a < 30)
     \<longleftrightarrow> (\<exists>b2 \<in> set (bookings d). \<exists>f \<in> set (flights d).
            booking_pk b2 = n \<and> flight_pk f = flight_id b2
            \<and> minutes_between (case actual_dep f of None \<Rightarrow> scheduled_dep f | Some t \<Rightarrow> t) a
                < 30)"
proof
  assume "\<exists>t. next_flight_dep d n = Some t \<and> minutes_between t a < 30"
  then obtain b2 f where "find (\<lambda>b2. booking_pk b2 = n) (bookings d) = Some b2"
    and "find (\<lambda>f. flight_pk f = flight_id b2) (flights d) = Some f"
    and "minutes_between (effective_dep f) a < 30"
    by (auto simp: next_flight_dep_def split: option.splits)
  then show "\<exists>b2 \<in> set (bookings d). \<exists>f \<in> set (flights d).
            booking_pk b2 = n \<and> flight_pk f = flight_id b2
            \<and> minutes_between (case actual_dep f of None \<Rightarrow> scheduled_dep f | Some t \<Rightarrow> t) a
                < 30"
    using find_in_set [of "\<lambda>b2. booking_pk b2 = n" "bookings d" b2]
      find_in_set [of "\<lambda>f. flight_pk f = flight_id b2" "flights d" f]
    by (auto simp: effective_dep_def)
next
  assume "\<exists>b2 \<in> set (bookings d). \<exists>f \<in> set (flights d).
            booking_pk b2 = n \<and> flight_pk f = flight_id b2
            \<and> minutes_between (case actual_dep f of None \<Rightarrow> scheduled_dep f | Some t \<Rightarrow> t) a
                < 30"
  then obtain b2 f where b2: "b2 \<in> set (bookings d)" "booking_pk b2 = n"
    and f: "f \<in> set (flights d)" "flight_pk f = flight_id b2"
    and gap: "minutes_between (effective_dep f) a < 30"
    by (auto simp: effective_dep_def)
  have "find (\<lambda>x. booking_pk x = booking_pk b2) (bookings d) = Some b2"
    using assms(1) b2(1) by (rule find_by_key)
  moreover have "find (\<lambda>x. flight_pk x = flight_pk f) (flights d) = Some f"
    using assms(2) f(1) by (rule find_by_key)
  ultimately have "next_flight_dep d n = Some (effective_dep f)"
    using b2(2) f(2) by (simp add: next_flight_dep_def)
  then show "\<exists>t. next_flight_dep d n = Some t \<and> minutes_between t a < 30"
    using gap by simp
qed

text \<open>
  C3. Take a call of \<^verbatim>\<open>calculate_blast_radius\<close> that passes the guard, for a flight
  of the table whose arrival after step 1 is \<open>a\<close>, and let \<open>d2\<close> be the database
  after step 2: the one of step 1 when no cascade is forced, the one the recursive
  call returns otherwise. The call returns \<open>d2\<close> with MISSED\_CONNECTION written to
  exactly the bookings that miss their connection in \<open>d2\<close> and to the bookings they
  link to, every other booking and table as in \<open>d2\<close>, and one log row that counts
  one impacted passenger for each booking that misses. With unique keys, a CONFIRMED
  booking of the flight with a forward link is written together with its linked
  booking exactly when the minutes between \<open>a\<close> and the departure (actual if set,
  else scheduled) of the linked booking's flight are fewer than 30: a departure 30
  minutes after \<open>a\<close> gives 30 (kept), one 29 minutes after gives 29 (broken).
\<close>

theorem connection_broken_below_30_minutes:
  assumes "\<not> p_depth > 20"
    and "d1 = d\<lparr>flights := delay_target p m (flights d)\<rparr>"
    and "select_flight p (flights d1) = Some tf"
    and "actual_arr tf = Some a"
    and "case cf of None \<Rightarrow> True | Some c' \<Rightarrow> flight_exists d c'"
    and "case cascade_target p (aircraft_id tf) (actual_dep tf) (actual_arr tf) (flights d1) of
           None \<Rightarrow> d2 = d1 \<and> k = 0
         | Some (nid, fd) \<Rightarrow>
             calculate_blast_radius nid fd (Some (turnaround_cause p)) (Some p)
               (p_depth + 1) d1 = Inr d2 \<and> k = 1"
  shows "calculate_blast_radius p m c cf p_depth d =
      Inr (d2\<lparr>bookings :=
               map (\<lambda>x. if connection_marked d2 p a (booking_pk x)
                         then x\<lparr>booking_status := MISSED_CONNECTION\<rparr> else x)
                   (bookings d2),
             disruption_log := disruption_log d2 @
               [\<lparr>log_flight_id = p, log_delay_minutes = m, cause = c,
                 cascaded_from_flight_id = cf,
                 passengers_impacted =
                   int (length (filter (misses_connection d2 p a) (bookings d2))),
                 flights_impacted = k\<rparr>]\<rparr>)
    \<and> (distinct (map booking_pk (bookings d)) \<and> distinct (map flight_pk (flights d)) \<longrightarrow>
         (\<forall>b \<in> set (bookings d2). \<forall>n.
             flight_id b = p \<and> booking_status b = CONFIRMED \<and> next_booking_id b = Some n \<longrightarrow>
             (connection_marked d2 p a (booking_pk b) \<and> connection_marked d2 p a n
              \<longleftrightarrow> (\<exists>b2 \<in> set (bookings d2). \<exists>f \<in> set (flights d2).
                     booking_pk b2 = n \<and> flight_pk f = flight_id b2
                     \<and> minutes_between
                         (case actual_dep f of None \<Rightarrow> scheduled_dep f | Some t \<Rightarrow> t) a
                        < 30))))
    \<and> minutes_between (a + minutes 30) a = 30
    \<and> minutes_between (a + minutes 29) a = 29"
proof (intro conjI)
  let ?tgt = "cascade_target p (aircraft_id tf) (actual_dep tf) (actual_arr tf) (flights d1)"
  have keys1: "map flight_pk (flights d1) = map flight_pk (flights d)"
    and books1: "bookings d1 = bookings d"
    by (simp_all add: assms(2))
  have keys2: "map flight_pk (flights d2) = map flight_pk (flights d)"
    and books2: "map booking_pk (bookings d2) = map booking_pk (bookings d)"
    using assms(6) keys1 books1
    by (auto split: option.splits dest: blast_radius_flight_keys blast_radius_booking_keys)
  have "p \<in> set (map flight_pk (flights d1))"
    using assms(3) find_in_set [of "\<lambda>f. flight_pk f = p" "flights d1" tf]
    by (auto simp: select_flight_def)
  then have ex: "flight_exists d2 p"
    by (simp add: flight_exists_def keys1 keys2)
  have cf: "case cf of None \<Rightarrow> True | Some c' \<Rightarrow> flight_exists d2 c'"
    using assms(5) by (simp add: flight_exists_def keys2 split: option.splits)
  have "calculate_blast_radius p m c cf p_depth d = check_and_log p m c cf (Some a) k d2"
    using calculate_blast_radius_step [OF assms(1,2) assms(3) [symmetric], of c cf,
        unfolded Option.bind.simps] assms(4,6)
    by (cases ?tgt) auto
  then show "calculate_blast_radius p m c cf p_depth d =
      Inr (d2\<lparr>bookings :=
               map (\<lambda>x. if connection_marked d2 p a (booking_pk x)
                         then x\<lparr>booking_status := MISSED_CONNECTION\<rparr> else x)
                   (bookings d2),
             disruption_log := disruption_log d2 @
               [\<lparr>log_flight_id = p, log_delay_minutes = m, cause = c,
                 cascaded_from_flight_id = cf,
                 passengers_impacted =
                   int (length (filter (misses_connection d2 p a) (bookings d2))),
                 flights_impacted = k\<rparr>]\<rparr>)"
    using check_and_log_marks [OF ex cf] by simp
  show "distinct (map booking_pk (bookings d)) \<and> distinct (map flight_pk (flights d)) \<longrightarrow>
         (\<forall>b \<in> set (bookings d2). \<forall>n.
             flight_id b = p \<and> booking_status b = CONFIRMED \<and> next_booking_id b = Some n \<longrightarrow>
             (connection_marked d2 p a (booking_pk b) \<and> connection_marked d2 p a n
              \<longleftrightarrow> (\<exists>b2 \<in> set (bookings d2). \<exists>f \<in> set (flights d2).
                     booking_pk b2 = n \<and> flight_pk f = flight_id b2
                     \<and> minutes_between
                         (case actual_dep f of None \<Rightarrow> scheduled_dep f | Some t \<Rightarrow> t) a
                        < 30)))"
  proof (intro impI ballI allI)
    fix b n
    assume dist: "distinct (map booking_pk (bookings d)) \<and> distinct (map flight_pk (flights d))"
      and b: "b \<in> set (bookings d2)"
      and c: "flight_id b = p \<and> booking_status b = CONFIRMED \<and> next_booking_id b = Some n"
    have d2b: "distinct (map booking_pk (bookings d2))"
      and d2f: "distinct (map flight_pk (flights d2))"
      using dist by (simp_all add: keys2 books2)
    show "connection_marked d2 p a (booking_pk b) \<and> connection_marked d2 p a n
              \<longleftrightarrow> (\<exists>b2 \<in> set (bookings d2). \<exists>f \<in> set (flights d2).
                     booking_pk b2 = n \<and> flight_pk f = flight_id b2
                     \<and> minutes_between
                         (case actual_dep f of None \<Rightarrow> scheduled_dep f | Some t \<Rightarrow> t) a
                        < 30)"
      using both_marked_iff [OF d2b b, of p n a] c
      unfolding linked_departure_iff [OF d2b d2f] by simp
  qed
  show "minutes_between (a + minutes 30) a = 30" and "minutes_between (a + minutes 29) a = 29"
    by (simp_all add: minutes_between_whole)
qed

theorem connection_broken_below_30_minutes_witness:
  "cascade_target 1 (Some 7) (Some 37800) (Some 45000)
       (delay_target 1 30 (flights cascade_connection_db)) = Some (2, 35)
   \<and> map_sum id (map actual_dep \<circ> flights)
       (calculate_blast_radius 2 35 (Some (turnaround_cause 1)) (Some 1) 1
          (cascade_connection_db\<lparr>flights := delay_target 1 30 (flights cascade_connection_db)\<rparr>))
     = Inr [Some 37800, Some 47700, None, None]
   \<and> map_sum id (map booking_status \<circ> bookings)
       (calculate_blast_radius 1 30 None None 0 cascade_connection_db)
     = Inr [CONFIRMED, CONFIRMED, MISSED_CONNECTION, MISSED_CONNECTION, CONFIRMED, CONFIRMED]
   \<and> map_sum id (map passengers_impacted \<circ> disruption_log)
       (calculate_blast_radius 1 30 None None 0 cascade_connection_db) = Inr [0, 1]"
proof -
  let ?d = cascade_connection_db
  let ?d1 = "?d\<lparr>flights := delay_target 1 30 (flights ?d)\<rparr>"
  let ?tf = "delay_flight 30 (example_flight 1 (Some 7) 36000 43200)"
  let ?rec = "calculate_blast_radius 2 35 (Some (turnaround_cause 1)) (Some 1) (0 + 1) ?d1"
  have depth: "\<not> (0::int) > 20" by simp
  have sel: "select_flight 1 (flights ?d1) = Some ?tf" by code_simp
  have arr: "actual_arr ?tf = Some 45000" by code_simp
  have cf: "case None of None \<Rightarrow> True | Some c' \<Rightarrow> flight_exists ?d c'" by simp
  have tgt: "cascade_target 1 (aircraft_id ?tf) (actual_dep ?tf) (actual_arr ?tf) (flights ?d1)
      = Some (2, 35)" by code_simp
  have tgt': "cascade_target 1 (Some 7) (Some 37800) (Some 45000)
       (delay_target 1 30 (flights cascade_connection_db)) = Some (2, 35)" by code_simp
  have "case ?rec of Inl e \<Rightarrow> False | Inr d2 \<Rightarrow> True" by code_simp
  then obtain d2 where rec: "?rec = Inr d2" by (cases ?rec) auto
  have step2: "case cascade_target 1 (aircraft_id ?tf) (actual_dep ?tf) (actual_arr ?tf)
                  (flights ?d1) of
           None \<Rightarrow> d2 = ?d1 \<and> (1::int) = 0
         | Some (nid, fd) \<Rightarrow>
             calculate_blast_radius nid fd (Some (turnaround_cause 1)) (Some 1) (0 + 1) ?d1
               = Inr d2 \<and> (1::int) = 1"
    unfolding tgt using rec by simp
  have cascade: "map_sum id (map actual_dep \<circ> flights)
       (calculate_blast_radius 2 35 (Some (turnaround_cause 1)) (Some 1) 1 ?d1)
     = Inr [Some 37800, Some 47700, None, None]" by code_simp
  have run: "map_sum id (map booking_status \<circ> bookings)
       (calculate_blast_radius 1 30 None None 0 cascade_connection_db)
     = Inr [CONFIRMED, CONFIRMED, MISSED_CONNECTION, MISSED_CONNECTION, CONFIRMED, CONFIRMED]"
    by code_simp
  have pax: "map_sum id (map passengers_impacted \<circ> disruption_log)
       (calculate_blast_radius 1 30 None None 0 cascade_connection_db) = Inr [0, 1]"
    by code_simp
  from connection_broken_below_30_minutes [OF depth refl sel arr cf step2, where c = None]
    tgt' cascade run pax
  show ?thesis by simp
qed

subsection \<open>A flight that does not exist\<close>

lemma delay_target_unknown:
  "p \<notin> set (map flight_pk fs) \<Longrightarrow> delay_target p m fs = fs"
  by (induction fs) (auto simp: delay_target_def)

lemma select_flight_unknown:
  "p \<notin> set (map flight_pk fs) \<Longrightarrow> select_flight p fs = None"
  by (induction fs) (auto simp: select_flight_def)

lemma connecting_bookings_unknown:
  "\<forall>b \<in> set bs. flight_id b \<noteq> p \<Longrightarrow> connecting_bookings p bs = []"
  by (induction bs) (auto simp: connecting_bookings_def map_filter_simps split: option.splits)

text \<open>
  C9. A call for a flight id that is not in the flights table, at a depth that passes
  the guard, fails: the insert into the disruption log violates the foreign key to
  \<^verbatim>\<open>flights(id)\<close>, the error reaches the caller, and the call leaves the database
  as it was. Nothing is written before the error is raised: the update of step 1
  matches no row, and, since every booking refers to a flight of the table, the loop of
  step 3 has no row to visit.
\<close>

theorem unknown_flight_rejected:
  assumes "\<not> flight_exists d p" and "p_depth \<le> 20"
    and "\<forall>b \<in> set (bookings d). flight_exists d (flight_id b)"
  shows "calculate_blast_radius p m c cf p_depth d = Inl ForeignKeyViolation
    \<and> delay_target p m (flights d) = flights d
    \<and> connection_check p None d = (d, 0)
    \<and> rpc_call (Calculate_blast_radius p m c cf p_depth) d = d"
proof -
  have unk: "p \<notin> set (map flight_pk (flights d))"
    using assms(1) by (simp add: flight_exists_def)
  have same: "delay_target p m (flights d) = flights d"
    using unk by (rule delay_target_unknown)
  have d1: "d = d\<lparr>flights := delay_target p m (flights d)\<rparr>"
    by (simp add: same)
  have row: "None = select_flight p (flights d)"
    using unk by (simp add: select_flight_unknown)
  have "\<forall>b \<in> set (bookings d). flight_id b \<noteq> p"
    using assms(1,3) by auto
  then have loop: "connection_check p None d = (d, 0)"
    by (simp add: connection_check_def connecting_bookings_unknown)
  have "calculate_blast_radius p m c cf p_depth d = check_and_log p m c cf None 0 d"
    using assms(2) calculate_blast_radius_step [OF _ d1 row, of p_depth c cf]
    by (simp add: cascade_target_def next_flight_def)
  also have "\<dots> = Inl ForeignKeyViolation"
    using assms(1) loop by (simp add: check_and_log_def log_disruption_def)
  finally show ?thesis using same loop by simp
qed

theorem unknown_flight_rejected_witness:
  "\<not> flight_exists connection_db 99
   \<and> calculate_blast_radius 99 30 (Some ''Manual delay trigger'') None 0 connection_db
       = Inl ForeignKeyViolation
   \<and> rpc_call (Calculate_blast_radius 99 30 (Some ''Manual delay trigger'') None 0)
       connection_db = connection_db"
proof -
  have a: "\<not> flight_exists connection_db 99" by code_simp
  have b: "(0::int) \<le> 20" by simp
  have c: "\<forall>b \<in> set (bookings connection_db). flight_exists connection_db (flight_id b)"
    by code_simp
  from unknown_flight_rejected [OF a b c] a show ?thesis by simp
qed

subsection \<open>Invariants of the flights table\<close>

lemma rpc_call_flights_rel:
  assumes refl: "\<And>f. R f f" and trans: "\<And>f g h. R f g \<Longrightarrow> R g h \<Longrightarrow> R f h"
    and delay: "\<And>k f. Pm k \<Longrightarrow> R f (delay_flight k f)" and pos: "\<And>k. k > 0 \<Longrightarrow> Pm k"
    and tick: "\<And>f s. R f (f\<lparr>status := s\<rparr>)"
    and init: "\<And>f. actual_dep f = None \<Longrightarrow>
        R f (f\<lparr>actual_dep := Some (scheduled_dep f), actual_arr := Some (scheduled_arr f)\<rparr>)"
    and reset: "\<And>f. allow_reset \<Longrightarrow> R f (reset_flight f)"
    and ok: "Pm (delay_input call)" "call = Reset_simulation \<Longrightarrow> allow_reset"
  shows "list_all2 R (flights d) (flights (rpc_call call d))"
proof (cases call)
  case (Calculate_blast_radius p m c cf dp)
  show ?thesis
  proof (cases "calculate_blast_radius p m c cf dp d")
    case (Inl e)
    then show ?thesis using Calculate_blast_radius refl by (simp add: list_all2_same)
  next
    case (Inr d')
    have "Pm m" using ok(1) Calculate_blast_radius by simp
    from blast_radius_flights_rel [of p m c cf dp d d' Pm R, OF Inr this pos refl trans delay]
    show ?thesis using Calculate_blast_radius Inr by simp
  qed
next
  case (Update_flight_statuses now)
  have "R f (to_landed now (to_active now (to_boarding now f)))" for f
  proof -
    have a: "R f (to_boarding now f)" using refl tick by (simp add: to_boarding_def)
    have b: "R (to_boarding now f) (to_active now (to_boarding now f))"
      using refl tick by (simp add: to_active_def)
    have c: "R (to_active now (to_boarding now f)) (to_landed now (to_active now (to_boarding now f)))"
      using refl tick by (simp add: to_landed_def)
    from trans [OF trans [OF a b] c] show ?thesis .
  qed
  then have "list_all2 R (flights d)
      (map (\<lambda>f. to_landed now (to_active now (to_boarding now f))) (flights d))"
    by (rule list_all2_map_same)
  then show ?thesis
    using Update_flight_statuses by (simp add: update_flight_statuses_def comp_def)
next
  case Reset_simulation
  then show ?thesis
    using reset ok(2) by (simp add: reset_simulation_def list_all2_map_same)
next
  case Initialize_flight_times
  then show ?thesis
    using init refl by (simp add: initialize_flight_times_def list_all2_map_same)
qed

lemma rpc_calls_flights_rel:
  assumes refl: "\<And>f. R f f" and trans: "\<And>f g h. R f g \<Longrightarrow> R g h \<Longrightarrow> R f h"
    and delay: "\<And>k f. Pm k \<Longrightarrow> R f (delay_flight k f)" and pos: "\<And>k. k > 0 \<Longrightarrow> Pm k"
    and tick: "\<And>f s. R f (f\<lparr>status := s\<rparr>)"
    and init: "\<And>f. actual_dep f = None \<Longrightarrow>
        R f (f\<lparr>actual_dep := Some (scheduled_dep f), actual_arr := Some (scheduled_arr f)\<rparr>)"
    and reset: "\<And>f. allow_reset \<Longrightarrow> R f (reset_flight f)"
    and ok: "\<forall>call \<in> set calls. Pm (delay_input call)"
      "Reset_simulation \<in> set calls \<Longrightarrow> allow_reset"
  shows "list_all2 R (flights d) (flights (fold rpc_call calls d))"
  using ok
proof (induction calls arbitrary: d)
  case Nil
  then show ?case using refl by (simp add: list_all2_same)
next
  case (Cons call calls)
  have a: "list_all2 R (flights d) (flights (rpc_call call d))"
    using Cons.prems
    by (intro rpc_call_flights_rel [of R Pm allow_reset, OF refl trans delay pos tick init reset])
      simp_all
  have b: "list_all2 R (flights (rpc_call call d)) (flights (fold rpc_call calls (rpc_call call d)))"
    using Cons.prems by (intro Cons.IH) simp_all
  show ?case
    using list_all2_trans [of R R R, OF _ a b] trans by (simp; blast)
qed

text \<open>
  C5. Whatever calls of the engine run (delay propagation at any depth,
  \<^verbatim>\<open>update_flight_statuses\<close>, \<^verbatim>\<open>reset_simulation\<close>,
  \<^verbatim>\<open>initialize_flight_times\<close>), in any order, the flights table keeps its rows, their
  keys and their scheduled times, and every flight that had its actual times set with
  \<open>actual_dep = scheduled_dep + delay\<close> and the scheduled duration between them has
  them so afterwards. A flight that starts without actual times and without delay
  either stays so or has them set that way.
\<close>

theorem engine_keeps_times_consistent:
  "list_all2 (\<lambda>f f'. flight_pk f' = flight_pk f \<and> scheduled_dep f' = scheduled_dep f
                  \<and> scheduled_arr f' = scheduled_arr f
                  \<and> (times_consistent f \<longrightarrow> times_consistent f')
                  \<and> (not_yet_initialized f \<longrightarrow> not_yet_initialized f' \<or> times_consistent f'))
     (flights d) (flights (fold rpc_call calls d))"
proof (rule rpc_calls_flights_rel [where Pm = "\<lambda>_. True" and allow_reset = True])
  fix k f
  show "flight_pk (delay_flight k f) = flight_pk f \<and>
      scheduled_dep (delay_flight k f) = scheduled_dep f \<and>
      scheduled_arr (delay_flight k f) = scheduled_arr f \<and>
      (times_consistent f \<longrightarrow> times_consistent (delay_flight k f)) \<and>
      (not_yet_initialized f \<longrightarrow>
         not_yet_initialized (delay_flight k f) \<or> times_consistent (delay_flight k f))"
    by (auto simp: times_consistent_def not_yet_initialized_def delay_flight_def
        effective_dep_def effective_arr_def
        cumulative_delay_def minutes_def algebra_simps split: option.splits)
next
  fix f
  show "flight_pk (reset_flight f) = flight_pk f \<and>
      scheduled_dep (reset_flight f) = scheduled_dep f \<and>
      scheduled_arr (reset_flight f) = scheduled_arr f \<and>
      (times_consistent f \<longrightarrow> times_consistent (reset_flight f)) \<and>
      (not_yet_initialized f \<longrightarrow>
         not_yet_initialized (reset_flight f) \<or> times_consistent (reset_flight f))"
    by (simp add: times_consistent_def reset_flight_def cumulative_delay_def minutes_def)
next
  fix f g h :: flight
  assume "flight_pk g = flight_pk f \<and> scheduled_dep g = scheduled_dep f
      \<and> scheduled_arr g = scheduled_arr f
      \<and> (times_consistent f \<longrightarrow> times_consistent g)
      \<and> (not_yet_initialized f \<longrightarrow> not_yet_initialized g \<or> times_consistent g)"
    and "flight_pk h = flight_pk g \<and> scheduled_dep h = scheduled_dep g
      \<and> scheduled_arr h = scheduled_arr g
      \<and> (times_consistent g \<longrightarrow> times_consistent h)
      \<and> (not_yet_initialized g \<longrightarrow> not_yet_initialized h \<or> times_consistent h)"
  then show "flight_pk h = flight_pk f \<and> scheduled_dep h = scheduled_dep f
      \<and> scheduled_arr h = scheduled_arr f
      \<and> (times_consistent f \<longrightarrow> times_consistent h)
      \<and> (not_yet_initialized f \<longrightarrow> not_yet_initialized h \<or> times_consistent h)"
    by auto
qed (auto simp: times_consistent_def not_yet_initialized_def cumulative_delay_def minutes_def
    split: option.splits)

theorem engine_keeps_times_consistent_witness:
  "map times_consistent (flights (initialize_flight_times rotation_db)) = [True, True]
   \<and> map times_consistent
       (flights (fold rpc_call
          [Calculate_blast_radius 1 120 None None 0, Update_flight_statuses 45000,
           Calculate_blast_radius 2 15 (Some ''Crew availability'') None 0]
          (initialize_flight_times rotation_db))) = [True, True]
   \<and> map not_yet_initialized (flights rotation_db) = [True, True]
   \<and> map times_consistent
       (flights (fold rpc_call [Calculate_blast_radius 1 120 None None 0] rotation_db))
     = [True, True]"
proof -
  have before: "map times_consistent (flights (initialize_flight_times rotation_db))
      = [True, True]"
    by code_simp
  have after: "map times_consistent
       (flights (fold rpc_call
          [Calculate_blast_radius 1 120 None None 0, Update_flight_statuses 45000,
           Calculate_blast_radius 2 15 (Some ''Crew availability'') None 0]
          (initialize_flight_times rotation_db))) = [True, True]"
    by code_simp
  have seeded: "map not_yet_initialized (flights rotation_db) = [True, True]"
    by code_simp
  have delayed: "map times_consistent
       (flights (fold rpc_call [Calculate_blast_radius 1 120 None None 0] rotation_db))
     = [True, True]"
    by code_simp
  from engine_keeps_times_consistent [of "initialize_flight_times rotation_db"
      "[Calculate_blast_radius 1 120 None None 0, Update_flight_statuses 45000,
        Calculate_blast_radius 2 15 (Some ''Crew availability'') None 0]"]
    engine_keeps_times_consistent [of rotation_db "[Calculate_blast_radius 1 120 None None 0]"]
    before after seeded delayed
  show ?thesis by simp
qed

text \<open>
  C6. When no call asks for a negative delay and no flight starts with a negative
  cumulative delay, no flight has one after any sequence of calls; and along a sequence
  without a reset (delay triggers with all their cascade steps, lifecycle ticks,
  initialisation) the cumulative delay of every flight is at least what it was.
\<close>

theorem delay_never_decreases:
  assumes "\<forall>call \<in> set calls. 0 \<le> delay_input call"
    and "\<forall>f \<in> set (flights d). 0 \<le> cumulative_delay f"
  shows "(\<forall>f \<in> set (flights (fold rpc_call calls d)). 0 \<le> cumulative_delay f)
    \<and> (Reset_simulation \<notin> set calls \<longrightarrow>
         list_all2 (\<lambda>f f'. flight_pk f' = flight_pk f
                        \<and> cumulative_delay f \<le> cumulative_delay f')
           (flights d) (flights (fold rpc_call calls d)))"
proof
  have "list_all2 (\<lambda>f f'. 0 \<le> cumulative_delay f \<longrightarrow> 0 \<le> cumulative_delay f')
     (flights d) (flights (fold rpc_call calls d))"
    using assms(1)
    by (intro rpc_calls_flights_rel [where Pm = "\<lambda>k. 0 \<le> k" and allow_reset = True])
      (auto simp: delay_flight_def reset_flight_def cumulative_delay_def)
  then have len: "length (flights d) = length (flights (fold rpc_call calls d))"
    and nth: "\<And>i. i < length (flights d) \<Longrightarrow> 0 \<le> cumulative_delay (flights d ! i) \<Longrightarrow>
        0 \<le> cumulative_delay (flights (fold rpc_call calls d) ! i)"
    by (simp_all add: list_all2_conv_all_nth)
  show "\<forall>f \<in> set (flights (fold rpc_call calls d)). 0 \<le> cumulative_delay f"
  proof
    fix f'
    assume "f' \<in> set (flights (fold rpc_call calls d))"
    then obtain i where i: "i < length (flights d)" "flights (fold rpc_call calls d) ! i = f'"
      using len by (auto simp: in_set_conv_nth)
    then have "0 \<le> cumulative_delay (flights d ! i)"
      using assms(2) nth_mem by blast
    from nth [OF i(1) this] i(2) show "0 \<le> cumulative_delay f'" by simp
  qed
next
  show "Reset_simulation \<notin> set calls \<longrightarrow>
         list_all2 (\<lambda>f f'. flight_pk f' = flight_pk f
                        \<and> cumulative_delay f \<le> cumulative_delay f')
           (flights d) (flights (fold rpc_call calls d))"
  proof
    assume "Reset_simulation \<notin> set calls"
    then show "list_all2 (\<lambda>f f'. flight_pk f' = flight_pk f
                        \<and> cumulative_delay f \<le> cumulative_delay f')
           (flights d) (flights (fold rpc_call calls d))"
      using assms(1)
      by (intro rpc_calls_flights_rel [where Pm = "\<lambda>k. 0 \<le> k" and allow_reset = False])
        (auto simp: delay_flight_def cumulative_delay_def)
  qed
qed

theorem delay_never_decreases_witness:
  "map cumulative_delay (flights rotation_db) = [0, 0]
   \<and> map cumulative_delay
       (flights (fold rpc_call
          [Calculate_blast_radius 1 120 None None 0, Update_flight_statuses 45000,
           Calculate_blast_radius 2 15 (Some ''Crew availability'') None 0] rotation_db))
     = [120, 120]"
proof -
  let ?calls = "[Calculate_blast_radius 1 120 None None 0, Update_flight_statuses 45000,
           Calculate_blast_radius 2 15 (Some ''Crew availability'') None 0]"
  have inputs: "\<forall>call \<in> set ?calls. 0 \<le> delay_input call" by simp
  have before: "map cumulative_delay (flights rotation_db) = [0, 0]" by code_simp
  have start: "\<forall>f \<in> set (flights rotation_db). 0 \<le> cumulative_delay f" by code_simp
  have after: "map cumulative_delay (flights (fold rpc_call ?calls rotation_db)) = [120, 120]"
    by code_simp
  from delay_never_decreases [OF inputs start] before after show ?thesis by simp
qed

subsection \<open>Rebooking suggestions\<close>

lemma order_by_limit_length: "length (order_by_limit n k xs) \<le> n"
  by (simp add: order_by_limit_def)

lemma order_by_limit_sorted: "sorted (map k (order_by_limit n k xs))"
  unfolding order_by_limit_def take_map [symmetric] by (rule sorted_wrt_take) simp

lemma order_by_limit_subset: "set (order_by_limit n k xs) \<subseteq> set xs"
  unfolding order_by_limit_def using set_take_subset [of n "sort_key k xs"] by simp

lemma order_by_limit_earliest:
  assumes "r \<in> set xs" and "r \<notin> set (order_by_limit n k xs)"
  shows "length (order_by_limit n k xs) = n \<and> (\<forall>c \<in> set (order_by_limit n k xs). k c \<le> k r)"
proof -
  let ?ys = "sort_key k xs"
  have split: "?ys = take n ?ys @ drop n ?ys" by simp
  have "r \<in> set ?ys" using assms(1) by simp
  then have "r \<in> set (take n ?ys) \<union> set (drop n ?ys)"
    using split by (metis set_append)
  then have late: "r \<in> set (drop n ?ys)"
    using assms(2) by (simp add: order_by_limit_def)
  then have "n < length ?ys" by (cases "n < length ?ys") auto
  then have len: "length (order_by_limit n k xs) = n"
    by (simp add: order_by_limit_def)
  have "sorted (map k (take n ?ys) @ map k (drop n ?ys))"
    unfolding map_append [symmetric] append_take_drop_id by simp
  then have "\<forall>c \<in> set (take n ?ys). k c \<le> k r"
    using late by (auto simp: sorted_append)
  then show ?thesis using len by (simp add: order_by_limit_def)
qed

lemma alternative_flights_iff:
  "(f, a) \<in> set (alternative_flights now d mf) \<longleftrightarrow>
   f \<in> set (flights d) \<and> a \<in> set (aircraft d) \<and> aircraft_id f = Some (aircraft_pk a)
   \<and> same_route_after now mf f"
  by (auto simp: alternative_flights_def)

lemma suggest_rebooking_cases:
  assumes "next_booking_id b = Some n" and "missed_flight d n = Some mf"
    and "cands = rebooking_candidates now d mf"
  shows "case suggest_rebooking now d (b, p) of
           None \<Rightarrow> \<forall>r \<in> set cands. seats_free d r \<le> 0
         | Some s \<Rightarrow>
             \<exists>i < length cands. (\<forall>j < i. seats_free d (cands ! j) \<le> 0)
               \<and> 0 < seats_free d (cands ! i)
               \<and> sg_booking_id s = booking_pk b
               \<and> suggested_flight_id s = flight_pk (fst (cands ! i))
               \<and> seats_available s = seats_free d (cands ! i)
               \<and> time_saved_minutes s =
                   minutes_between (effective_arr mf) (effective_arr (fst (cands ! i)))"
proof (cases "find (\<lambda>r. seats_free d r > 0) cands")
  case None
  then have "suggest_rebooking now d (b, p) = None"
    using assms by (simp add: suggest_rebooking_def)
  moreover have "\<forall>r \<in> set cands. seats_free d r \<le> 0"
    using None by (auto simp: find_None_iff not_less)
  ultimately show ?thesis by simp
next
  case (Some r)
  then obtain i where i: "i < length cands" "0 < seats_free d (cands ! i)" "r = cands ! i"
      "\<forall>j < i. \<not> 0 < seats_free d (cands ! j)"
    by (auto simp: find_Some_iff)
  show ?thesis
    using assms Some i
    by (auto simp: suggest_rebooking_def not_less intro!: exI [of _ i])
qed

lemma distinct_short: "length xs \<le> 1 \<Longrightarrow> distinct xs"
  by (cases xs) auto

lemma stranded_bookings_distinct:
  assumes "distinct (map booking_pk bs)" and "distinct (map passenger_pk ps)"
  shows "distinct (map (\<lambda>r. booking_pk (fst r))
           [(b, p). b \<leftarrow> bs, p \<leftarrow> ps,
              passenger_id b = passenger_pk p
              \<and> booking_status b = MISSED_CONNECTION \<and> next_booking_id b \<noteq> None])"
  using assms(1)
proof (induction bs)
  case Nil
  then show ?case by simp
next
  case (Cons b bs)
  have one: "length (filter (\<lambda>p. passenger_id b = passenger_pk p) ps) \<le> 1"
    using assms(2)
  proof (induction ps)
    case Nil
    then show ?case by simp
  next
    case (Cons q qs)
    then show ?case
      by (cases "passenger_id b = passenger_pk q")
        (auto simp: filter_empty_conv intro: rev_image_eqI)
  qed
  let ?row = "\<lambda>b. [(b, p). p \<leftarrow> ps, passenger_id b = passenger_pk p
              \<and> booking_status b = MISSED_CONNECTION \<and> next_booking_id b \<noteq> None]"
  have keys: "set (map (\<lambda>r. booking_pk (fst r)) (?row b')) \<subseteq> {booking_pk b'}" for b'
    by auto
  have "length (?row b) \<le> 1"
  proof -
    have "length (?row b) \<le> length (filter (\<lambda>p. passenger_id b = passenger_pk p) ps)"
      by (induction ps) auto
    then show ?thesis using one by simp
  qed
  then have "length (map (\<lambda>r. booking_pk (fst r)) (?row b)) \<le> 1"
    by simp
  then have d1: "distinct (map (\<lambda>r. booking_pk (fst r)) (?row b))"
    by (rule distinct_short)
  have rest: "set (map (\<lambda>r. booking_pk (fst r)) (concat (map ?row bs))) \<subseteq> booking_pk ` set bs"
    by auto
  have "booking_pk b \<notin> booking_pk ` set bs" using Cons.prems by auto
  then have disj: "set (map (\<lambda>r. booking_pk (fst r)) (?row b))
      \<inter> set (map (\<lambda>r. booking_pk (fst r)) (concat (map ?row bs))) = {}"
    using keys [of b] rest by blast
  have "distinct (map (\<lambda>r. booking_pk (fst r)) (concat (map ?row bs)))"
    using Cons by simp
  then show ?case using d1 disj by simp
qed

lemma map_filter_keys_distinct:
  assumes "distinct (map k rows)" and "\<And>r s. g r = Some s \<Longrightarrow> h s = k r"
  shows "distinct (map h (List.map_filter g rows))"
  using assms(1)
proof (induction rows)
  case Nil
  then show ?case by simp
next
  case (Cons r rows)
  have sub: "h ` set (List.map_filter g rows) \<subseteq> k ` set rows"
    using assms(2) by (auto simp: map_filter_def)
  show ?case
  proof (cases "g r")
    case None
    then show ?thesis using Cons by simp
  next
    case (Some s)
    then have "h s = k r" by (rule assms(2))
    then have "h s \<notin> h ` set (List.map_filter g rows)"
      using sub Cons.prems by auto
    then show ?thesis using Cons Some by simp
  qed
qed

lemma suggestion_booking_id:
  "suggest_rebooking now d r = Some s \<Longrightarrow> sg_booking_id s = booking_pk (fst r)"
  by (auto simp: suggest_rebooking_def split: option.splits)

lemma suggest_rebookings_distinct:
  assumes "distinct (map booking_pk (bookings d))" and "distinct (map passenger_pk (passengers d))"
  shows "distinct (map sg_booking_id (suggest_rebookings now d))"
  unfolding suggest_rebookings_def
  using stranded_bookings_distinct [OF assms] suggestion_booking_id
  by (intro map_filter_keys_distinct [where k = "\<lambda>r. booking_pk (fst r)"])
    (simp_all add: stranded_bookings_def)

lemma stranded_bookings_iff:
  "(b, p) \<in> set (stranded_bookings d) \<longleftrightarrow>
   b \<in> set (bookings d) \<and> p \<in> set (passengers d) \<and> passenger_id b = passenger_pk p
   \<and> booking_status b = MISSED_CONNECTION \<and> next_booking_id b \<noteq> None"
  by (auto simp: stranded_bookings_def)

lemma in_set_map_filter:
  "y \<in> set (List.map_filter g xs) \<longleftrightarrow> (\<exists>x \<in> set xs. g x = Some y)"
  by (induction xs) (auto split: option.splits)

lemma suggest_rebookings_iff:
  "s \<in> set (suggest_rebookings now d) \<longleftrightarrow>
   (\<exists>r \<in> set (stranded_bookings d). suggest_rebooking now d r = Some s)"
  by (simp add: suggest_rebookings_def in_set_map_filter)

lemma missed_flight_link:
  assumes "missed_flight d n = Some mf"
  shows "\<exists>b2 \<in> set (bookings d). booking_pk b2 = n \<and> mf \<in> set (flights d)
     \<and> flight_pk mf = flight_id b2"
proof -
  from assms obtain b2 where b2: "find (\<lambda>b2. booking_pk b2 = n) (bookings d) = Some b2"
    and f: "find (\<lambda>f. flight_pk f = flight_id b2) (flights d) = Some mf"
    by (auto simp: missed_flight_def split: option.splits)
  from b2 have "b2 \<in> set (bookings d) \<and> booking_pk b2 = n" by (auto simp: find_Some_iff)
  moreover from f have "mf \<in> set (flights d) \<and> flight_pk mf = flight_id b2"
    by (auto simp: find_Some_iff)
  ultimately show ?thesis by blast
qed

lemma missed_flight_found:
  assumes "distinct (map booking_pk (bookings d))" and "distinct (map flight_pk (flights d))"
    and "b2 \<in> set (bookings d)" and "mf \<in> set (flights d)" and "flight_pk mf = flight_id b2"
  shows "missed_flight d (booking_pk b2) = Some mf"
  using find_by_key [OF assms(1,3)] find_by_key [OF assms(2,4)] assms(5)
  by (simp add: missed_flight_def)

lemma suggest_rebooking_first_fit:
  assumes "suggest_rebooking now d (b, p) = Some s"
  shows "\<exists>n mf. next_booking_id b = Some n \<and> missed_flight d n = Some mf
     \<and> sg_booking_id s = booking_pk b
     \<and> (\<exists>i < length (rebooking_candidates now d mf).
           (\<forall>j < i. seats_free d (rebooking_candidates now d mf ! j) \<le> 0)
           \<and> 0 < seats_free d (rebooking_candidates now d mf ! i)
           \<and> suggested_flight_id s = flight_pk (fst (rebooking_candidates now d mf ! i))
           \<and> seats_available s = seats_free d (rebooking_candidates now d mf ! i)
           \<and> time_saved_minutes s =
               minutes_between (effective_arr mf)
                 (effective_arr (fst (rebooking_candidates now d mf ! i))))"
proof -
  from assms obtain n mf where n: "next_booking_id b = Some n" and mf: "missed_flight d n = Some mf"
    by (auto simp: suggest_rebooking_def split: option.splits)
  from suggest_rebooking_cases [OF n mf refl, of now p] assms
  show ?thesis using n mf by auto
qed

lemma suggest_rebooking_some:
  assumes "next_booking_id b = Some n" and "missed_flight d n = Some mf"
    and "r \<in> set (rebooking_candidates now d mf)" and "0 < seats_free d r"
  shows "\<exists>s. suggest_rebooking now d (b, p) = Some s \<and> sg_booking_id s = booking_pk b"
proof (cases "suggest_rebooking now d (b, p)")
  case None
  then have "\<forall>r \<in> set (rebooking_candidates now d mf). seats_free d r \<le> 0"
    using suggest_rebooking_cases [OF assms(1,2) refl, of now p] by simp
  then show ?thesis using assms(3,4) by auto
next
  case (Some s)
  then show ?thesis using suggestion_booking_id [OF Some] by simp
qed

lemma seats_free_explicit:
  "seats_free d r = capacity (snd r)
     - int (length (filter (\<lambda>x. flight_id x = flight_pk (fst r)
          \<and> (booking_status x = CONFIRMED \<or> booking_status x = REBOOKED)) (bookings d)))"
  by (simp add: seats_free_def booked_seats_def)

text \<open>
  C8, as the code has it. The missed flight of a forward link is the flight of the
  linked booking. Its candidates are at most three rows of the join of flights with
  their aircraft, in order of effective departure; each is a flight with an assigned
  aircraft on the route of the missed flight, departing after now, neither LANDED nor
  CANCELLED and not the missed flight itself; a row of that kind which is not a
  candidate departs no earlier than any of the three. Every row that
  \<^verbatim>\<open>suggest_rebookings\<close> returns belongs to a MISSED\_CONNECTION booking with a
  forward link and names the first candidate of its missed flight whose capacity
  exceeds the number of CONFIRMED and REBOOKED bookings on it, with
  \<open>seats_available\<close> that difference and \<open>time_saved_minutes\<close> the minutes from
  the candidate's arrival to the missed flight's (negative when the candidate is
  later). Every such booking for which some candidate has a free seat gets a row; with
  unique keys a booking that is not of that kind, or for which no candidate has a free
  seat, gets none, and no booking gets two.
\<close>

theorem rebooking_first_fit:
  "(\<forall>n mf. missed_flight d n = Some mf \<longrightarrow>
       (\<exists>b2 \<in> set (bookings d). booking_pk b2 = n \<and> mf \<in> set (flights d)
           \<and> flight_pk mf = flight_id b2))
   \<and> (distinct (map booking_pk (bookings d)) \<and> distinct (map flight_pk (flights d)) \<longrightarrow>
        (\<forall>b2 \<in> set (bookings d). \<forall>mf \<in> set (flights d).
            flight_pk mf = flight_id b2 \<longrightarrow> missed_flight d (booking_pk b2) = Some mf))
   \<and> (\<forall>mf. length (rebooking_candidates now d mf) \<le> 3
        \<and> sorted (map (\<lambda>r. effective_dep (fst r)) (rebooking_candidates now d mf))
        \<and> (\<forall>r \<in> set (rebooking_candidates now d mf).
              fst r \<in> set (flights d) \<and> snd r \<in> set (aircraft d)
              \<and> aircraft_id (fst r) = Some (aircraft_pk (snd r))
              \<and> origin_code (fst r) = origin_code mf
              \<and> destination_code (fst r) = destination_code mf
              \<and> now < effective_dep (fst r)
              \<and> status (fst r) \<noteq> LANDED \<and> status (fst r) \<noteq> CANCELLED
              \<and> flight_pk (fst r) \<noteq> flight_pk mf)
        \<and> (\<forall>f \<in> set (flights d). \<forall>a \<in> set (aircraft d).
              aircraft_id f = Some (aircraft_pk a)
              \<and> origin_code f = origin_code mf \<and> destination_code f = destination_code mf
              \<and> now < effective_dep f \<and> status f \<noteq> LANDED \<and> status f \<noteq> CANCELLED
              \<and> flight_pk f \<noteq> flight_pk mf \<and> (f, a) \<notin> set (rebooking_candidates now d mf)
              \<longrightarrow> length (rebooking_candidates now d mf) = 3
                  \<and> (\<forall>c \<in> set (rebooking_candidates now d mf).
                        effective_dep (fst c) \<le> effective_dep f)))
   \<and> (\<forall>s \<in> set (suggest_rebookings now d).
        \<exists>b \<in> set (bookings d). \<exists>p \<in> set (passengers d). \<exists>n mf.
          passenger_id b = passenger_pk p \<and> booking_status b = MISSED_CONNECTION
          \<and> next_booking_id b = Some n \<and> missed_flight d n = Some mf
          \<and> sg_booking_id s = booking_pk b
          \<and> (\<exists>i < length (rebooking_candidates now d mf).
                (\<forall>j < i. capacity (snd (rebooking_candidates now d mf ! j))
                     - int (length (filter (\<lambda>x. flight_id x
                                = flight_pk (fst (rebooking_candidates now d mf ! j))
                            \<and> (booking_status x = CONFIRMED \<or> booking_status x = REBOOKED))
                          (bookings d))) \<le> 0)
                \<and> suggested_flight_id s = flight_pk (fst (rebooking_candidates now d mf ! i))
                \<and> 0 < seats_available s
                \<and> seats_available s
                    = capacity (snd (rebooking_candidates now d mf ! i))
                      - int (length (filter (\<lambda>x. flight_id x
                                = flight_pk (fst (rebooking_candidates now d mf ! i))
                            \<and> (booking_status x = CONFIRMED \<or> booking_status x = REBOOKED))
                          (bookings d)))
                \<and> time_saved_minutes s
                    = minutes_between
                        (case actual_arr mf of None \<Rightarrow> scheduled_arr mf | Some t \<Rightarrow> t)
                        (case actual_arr (fst (rebooking_candidates now d mf ! i)) of
                           None \<Rightarrow> scheduled_arr (fst (rebooking_candidates now d mf ! i))
                         | Some t \<Rightarrow> t)))
   \<and> (\<forall>b \<in> set (bookings d). \<forall>p \<in> set (passengers d). \<forall>n mf.
        passenger_id b = passenger_pk p \<and> booking_status b = MISSED_CONNECTION
        \<and> next_booking_id b = Some n \<and> missed_flight d n = Some mf
        \<and> (\<exists>r \<in> set (rebooking_candidates now d mf).
              0 < capacity (snd r)
                  - int (length (filter (\<lambda>x. flight_id x = flight_pk (fst r)
                            \<and> (booking_status x = CONFIRMED \<or> booking_status x = REBOOKED))
                          (bookings d))))
        \<longrightarrow> (\<exists>s \<in> set (suggest_rebookings now d). sg_booking_id s = booking_pk b))
   \<and> (distinct (map booking_pk (bookings d)) \<longrightarrow>
        (\<forall>b \<in> set (bookings d). \<forall>s \<in> set (suggest_rebookings now d).
            sg_booking_id s = booking_pk b \<longrightarrow>
            booking_status b = MISSED_CONNECTION
            \<and> (\<exists>n mf. next_booking_id b = Some n \<and> missed_flight d n = Some mf
                 \<and> (\<exists>r \<in> set (rebooking_candidates now d mf).
                       0 < capacity (snd r)
                           - int (length (filter (\<lambda>x. flight_id x = flight_pk (fst r)
                                 \<and> (booking_status x = CONFIRMED \<or> booking_status x = REBOOKED))
                               (bookings d)))))))
   \<and> (distinct (map booking_pk (bookings d)) \<and> distinct (map passenger_pk (passengers d))
        \<longrightarrow> distinct (map sg_booking_id (suggest_rebookings now d)))"
  (is "?link \<and> ?found \<and> ?cands \<and> ?sound \<and> ?complete \<and> ?only \<and> ?once")
proof (intro conjI)
  show ?link using missed_flight_link by blast
  show ?found using missed_flight_found by blast
  show ?cands
  proof (intro allI conjI)
    fix mf
    let ?c = "rebooking_candidates now d mf"
    show "length ?c \<le> 3"
      unfolding rebooking_candidates_def by (rule order_by_limit_length)
    show "sorted (map (\<lambda>r. effective_dep (fst r)) ?c)"
      unfolding rebooking_candidates_def by (rule order_by_limit_sorted)
    show "\<forall>r \<in> set ?c.
              fst r \<in> set (flights d) \<and> snd r \<in> set (aircraft d)
              \<and> aircraft_id (fst r) = Some (aircraft_pk (snd r))
              \<and> origin_code (fst r) = origin_code mf
              \<and> destination_code (fst r) = destination_code mf
              \<and> now < effective_dep (fst r)
              \<and> status (fst r) \<noteq> LANDED \<and> status (fst r) \<noteq> CANCELLED
              \<and> flight_pk (fst r) \<noteq> flight_pk mf"
    proof
      fix r
      assume "r \<in> set ?c"
      then have "(fst r, snd r) \<in> set (alternative_flights now d mf)"
        using order_by_limit_subset unfolding rebooking_candidates_def by fastforce
      then show "fst r \<in> set (flights d) \<and> snd r \<in> set (aircraft d)
          \<and> aircraft_id (fst r) = Some (aircraft_pk (snd r))
          \<and> origin_code (fst r) = origin_code mf
          \<and> destination_code (fst r) = destination_code mf
          \<and> now < effective_dep (fst r)
          \<and> status (fst r) \<noteq> LANDED \<and> status (fst r) \<noteq> CANCELLED
          \<and> flight_pk (fst r) \<noteq> flight_pk mf"
        unfolding alternative_flights_iff same_route_after_def by simp
    qed
    show "\<forall>f \<in> set (flights d). \<forall>a \<in> set (aircraft d).
              aircraft_id f = Some (aircraft_pk a)
              \<and> origin_code f = origin_code mf \<and> destination_code f = destination_code mf
              \<and> now < effective_dep f \<and> status f \<noteq> LANDED \<and> status f \<noteq> CANCELLED
              \<and> flight_pk f \<noteq> flight_pk mf \<and> (f, a) \<notin> set ?c
              \<longrightarrow> length ?c = 3 \<and> (\<forall>c \<in> set ?c. effective_dep (fst c) \<le> effective_dep f)"
    proof (intro ballI impI)
      fix f a
      assume fa: "f \<in> set (flights d)" "a \<in> set (aircraft d)"
        and c: "aircraft_id f = Some (aircraft_pk a)
          \<and> origin_code f = origin_code mf \<and> destination_code f = destination_code mf
          \<and> now < effective_dep f \<and> status f \<noteq> LANDED \<and> status f \<noteq> CANCELLED
          \<and> flight_pk f \<noteq> flight_pk mf \<and> (f, a) \<notin> set ?c"
      have "(f, a) \<in> set (alternative_flights now d mf)"
        using fa c unfolding alternative_flights_iff same_route_after_def by simp
      from order_by_limit_earliest [OF this, of 3 "\<lambda>r. effective_dep (fst r)"] c
      show "length ?c = 3 \<and> (\<forall>c \<in> set ?c. effective_dep (fst c) \<le> effective_dep f)"
        unfolding rebooking_candidates_def by simp
    qed
  qed
  show ?sound
  proof
    fix s
    assume "s \<in> set (suggest_rebookings now d)"
    then obtain b p where row: "(b, p) \<in> set (stranded_bookings d)"
      and s: "suggest_rebooking now d (b, p) = Some s"
      unfolding suggest_rebookings_iff by auto
    from suggest_rebooking_first_fit [OF s] obtain n mf i where
      f: "next_booking_id b = Some n" "missed_flight d n = Some mf"
        "sg_booking_id s = booking_pk b" "i < length (rebooking_candidates now d mf)"
        "\<forall>j < i. seats_free d (rebooking_candidates now d mf ! j) \<le> 0"
        "0 < seats_free d (rebooking_candidates now d mf ! i)"
        "suggested_flight_id s = flight_pk (fst (rebooking_candidates now d mf ! i))"
        "seats_available s = seats_free d (rebooking_candidates now d mf ! i)"
        "time_saved_minutes s = minutes_between (effective_arr mf)
           (effective_arr (fst (rebooking_candidates now d mf ! i)))"
      by blast
    from row have r: "b \<in> set (bookings d)" "p \<in> set (passengers d)"
        "passenger_id b = passenger_pk p" "booking_status b = MISSED_CONNECTION"
      by (simp_all add: stranded_bookings_iff)
    show "\<exists>b \<in> set (bookings d). \<exists>p \<in> set (passengers d). \<exists>n mf.
          passenger_id b = passenger_pk p \<and> booking_status b = MISSED_CONNECTION
          \<and> next_booking_id b = Some n \<and> missed_flight d n = Some mf
          \<and> sg_booking_id s = booking_pk b
          \<and> (\<exists>i < length (rebooking_candidates now d mf).
                (\<forall>j < i. capacity (snd (rebooking_candidates now d mf ! j))
                     - int (length (filter (\<lambda>x. flight_id x
                                = flight_pk (fst (rebooking_candidates now d mf ! j))
                            \<and> (booking_status x = CONFIRMED \<or> booking_status x = REBOOKED))
                          (bookings d))) \<le> 0)
                \<and> suggested_flight_id s = flight_pk (fst (rebooking_candidates now d mf ! i))
                \<and> 0 < seats_available s
                \<and> seats_available s
                    = capacity (snd (rebooking_candidates now d mf ! i))
                      - int (length (filter (\<lambda>x. flight_id x
                                = flight_pk (fst (rebooking_candidates now d mf ! i))
                            \<and> (booking_status x = CONFIRMED \<or> booking_status x = REBOOKED))
                          (bookings d)))
                \<and> time_saved_minutes s
                    = minutes_between
                        (case actual_arr mf of None \<Rightarrow> scheduled_arr mf | Some t \<Rightarrow> t)
                        (case actual_arr (fst (rebooking_candidates now d mf ! i)) of
                           None \<Rightarrow> scheduled_arr (fst (rebooking_candidates now d mf ! i))
                         | Some t \<Rightarrow> t))"
      using r f unfolding seats_free_explicit effective_arr_def
      by (intro bexI [of _ b] bexI [of _ p] exI [of _ n] exI [of _ mf]) auto
  qed
  show ?complete
  proof (intro ballI allI impI)
    fix b p n mf
    assume b: "b \<in> set (bookings d)" and p: "p \<in> set (passengers d)"
      and h: "passenger_id b = passenger_pk p \<and> booking_status b = MISSED_CONNECTION
        \<and> next_booking_id b = Some n \<and> missed_flight d n = Some mf
        \<and> (\<exists>r \<in> set (rebooking_candidates now d mf).
              0 < capacity (snd r)
                  - int (length (filter (\<lambda>x. flight_id x = flight_pk (fst r)
                            \<and> (booking_status x = CONFIRMED \<or> booking_status x = REBOOKED))
                          (bookings d))))"
    then obtain r where r: "r \<in> set (rebooking_candidates now d mf)" "0 < seats_free d r"
      unfolding seats_free_explicit by blast
    from h suggest_rebooking_some [OF _ _ r, of b n p] obtain s where
      s: "suggest_rebooking now d (b, p) = Some s" "sg_booking_id s = booking_pk b"
      by blast
    have "(b, p) \<in> set (stranded_bookings d)"
      using b p h by (simp add: stranded_bookings_iff)
    then have "s \<in> set (suggest_rebookings now d)"
      using s(1) unfolding suggest_rebookings_iff by blast
    then show "\<exists>s \<in> set (suggest_rebookings now d). sg_booking_id s = booking_pk b"
      using s(2) by blast
  qed
  show ?only
  proof (intro impI ballI)
    fix b s
    assume dist: "distinct (map booking_pk (bookings d))"
      and b: "b \<in> set (bookings d)" and "s \<in> set (suggest_rebookings now d)"
      and id: "sg_booking_id s = booking_pk b"
    then obtain b' p where row: "(b', p) \<in> set (stranded_bookings d)"
      and s: "suggest_rebooking now d (b', p) = Some s"
      unfolding suggest_rebookings_iff by auto
    from suggest_rebooking_first_fit [OF s] obtain n mf i where
      f: "next_booking_id b' = Some n" "missed_flight d n = Some mf"
        "sg_booking_id s = booking_pk b'" "i < length (rebooking_candidates now d mf)"
        "0 < seats_free d (rebooking_candidates now d mf ! i)"
      by blast
    from row have r: "b' \<in> set (bookings d)" "booking_status b' = MISSED_CONNECTION"
      by (simp_all add: stranded_bookings_iff)
    have "b' = b"
      using dist b r(1) f(3) id by (auto simp: distinct_map inj_on_def)
    moreover have "\<exists>r \<in> set (rebooking_candidates now d mf). 0 < seats_free d r"
      using f(4,5) nth_mem by blast
    ultimately show "booking_status b = MISSED_CONNECTION
            \<and> (\<exists>n mf. next_booking_id b = Some n \<and> missed_flight d n = Some mf
                 \<and> (\<exists>r \<in> set (rebooking_candidates now d mf).
                       0 < capacity (snd r)
                           - int (length (filter (\<lambda>x. flight_id x = flight_pk (fst r)
                                 \<and> (booking_status x = CONFIRMED \<or> booking_status x = REBOOKED))
                               (bookings d)))))"
      using r(2) f(1,2) unfolding seats_free_explicit by blast
  qed
  show ?once using suggest_rebookings_distinct by blast
qed

theorem rebooking_first_fit_witness:
  "distinct (map booking_pk (bookings stranded_db))
   \<and> distinct (map passenger_pk (passengers stranded_db))
   \<and> distinct (map flight_pk (flights stranded_db))
   \<and> missed_flight stranded_db 2 = Some (example_flight 10 None 50000 75000)
   \<and> missed_flight stranded_db 7 = Some (example_flight 10 None 50000 75000)
   \<and> map (flight_pk \<circ> fst)
       (rebooking_candidates 55000 stranded_db (example_flight 10 None 50000 75000))
     = [12, 13, 14]
   \<and> map (seats_free stranded_db)
       (rebooking_candidates 55000 stranded_db (example_flight 10 None 50000 75000))
     = [0, 0, 1]
   \<and> map (\<lambda>b. (booking_pk b, next_booking_id b))
       (filter (\<lambda>b. booking_status b = MISSED_CONNECTION) (bookings stranded_db))
     = [(1, Some 2), (2, None), (6, Some 7), (7, None), (9, Some 6)]
   \<and> map (flight_pk \<circ> fst)
       (rebooking_candidates 55000 stranded_db (the (missed_flight stranded_db 6))) = []
   \<and> map sg_booking_id (suggest_rebookings 55000 stranded_db) = [1, 6]
   \<and> map suggested_flight_id (suggest_rebookings 55000 stranded_db) = [14, 14]
   \<and> map seats_available (suggest_rebookings 55000 stranded_db) = [1, 1]
   \<and> map time_saved_minutes (suggest_rebookings 55000 stranded_db) = [- 250, - 250]
   \<and> distinct (map sg_booking_id (suggest_rebookings 55000 stranded_db))
   \<and> length (rebooking_candidates 55000 stranded_db (example_flight 10 None 50000 75000)) \<le> 3
   \<and> (\<exists>s \<in> set (suggest_rebookings 55000 stranded_db).
         sg_booking_id s
           = booking_pk ((example_booking 6 3 1 (Some 7))\<lparr>booking_status := MISSED_CONNECTION\<rparr>))"
proof -
  let ?b = "(example_booking 6 3 1 (Some 7))\<lparr>booking_status := MISSED_CONNECTION\<rparr>"
  let ?p = "\<lparr>passenger_pk = 3, first_name = ''Emmy'', last_name = ''Noether''\<rparr>"
  let ?mf = "example_flight 10 None 50000 75000"
  note fit = rebooking_first_fit [where d = stranded_db and now = 55000]
  have keys: "distinct (map booking_pk (bookings stranded_db))
      \<and> distinct (map passenger_pk (passengers stranded_db))"
    by code_simp
  have fkeys: "distinct (map flight_pk (flights stranded_db))"
    by code_simp
  have missed: "missed_flight stranded_db 2 = Some ?mf \<and> missed_flight stranded_db 7 = Some ?mf"
    by code_simp
  have cands: "map (flight_pk \<circ> fst) (rebooking_candidates 55000 stranded_db ?mf)
      = [12, 13, 14]"
    by code_simp
  have free: "map (seats_free stranded_db) (rebooking_candidates 55000 stranded_db ?mf)
      = [0, 0, 1]"
    by code_simp
  have stranded: "map (\<lambda>b. (booking_pk b, next_booking_id b))
       (filter (\<lambda>b. booking_status b = MISSED_CONNECTION) (bookings stranded_db))
     = [(1, Some 2), (2, None), (6, Some 7), (7, None), (9, Some 6)]"
    by code_simp
  have none: "map (flight_pk \<circ> fst)
       (rebooking_candidates 55000 stranded_db (the (missed_flight stranded_db 6))) = []"
    by code_simp
  have out: "map sg_booking_id (suggest_rebookings 55000 stranded_db) = [1, 6]
      \<and> map suggested_flight_id (suggest_rebookings 55000 stranded_db) = [14, 14]
      \<and> map seats_available (suggest_rebookings 55000 stranded_db) = [1, 1]
      \<and> map time_saved_minutes (suggest_rebookings 55000 stranded_db) = [- 250, - 250]"
    by code_simp
  have once: "distinct (map sg_booking_id (suggest_rebookings 55000 stranded_db))"
    by (rule fit [THEN conjunct2, THEN conjunct2, THEN conjunct2, THEN conjunct2,
          THEN conjunct2, THEN conjunct2, THEN mp, OF keys])
  have three: "length (rebooking_candidates 55000 stranded_db ?mf) \<le> 3"
    by (rule fit [THEN conjunct2, THEN conjunct2, THEN conjunct1, THEN spec, THEN conjunct1])
  have b: "?b \<in> set (bookings stranded_db)"
    by code_simp
  have p: "?p \<in> set (passengers stranded_db)"
    by code_simp
  have prem: "passenger_id ?b = passenger_pk ?p \<and> booking_status ?b = MISSED_CONNECTION
      \<and> next_booking_id ?b = Some 7 \<and> missed_flight stranded_db 7 = Some ?mf
      \<and> (\<exists>r \<in> set (rebooking_candidates 55000 stranded_db ?mf).
            0 < capacity (snd r)
                - int (length (filter (\<lambda>x. flight_id x = flight_pk (fst r)
                          \<and> (booking_status x = CONFIRMED \<or> booking_status x = REBOOKED))
                        (bookings stranded_db))))"
    by code_simp
  have complete: "\<exists>s \<in> set (suggest_rebookings 55000 stranded_db).
      sg_booking_id s = booking_pk ?b"
    by (rule fit [THEN conjunct2, THEN conjunct2, THEN conjunct2, THEN conjunct2,
          THEN conjunct1, THEN bspec, OF b, THEN bspec, OF p, THEN spec, THEN spec,
          THEN mp, OF prem])
  show ?thesis
    by (intro conjI keys [THEN conjunct1] keys [THEN conjunct2] fkeys missed [THEN conjunct1]
        missed [THEN conjunct2] cands free stranded none out [THEN conjunct1]
        out [THEN conjunct2, THEN conjunct1] out [THEN conjunct2, THEN conjunct2, THEN conjunct1]
        out [THEN conjunct2, THEN conjunct2, THEN conjunct2] once three complete)
qed

text \<open>
  C8 as it is written fails: the first three flights on the route are 11, 12 and 13,
  none of which can take the passenger, yet the function suggests flight 14. Flight 11
  has no aircraft, so the join drops it before the limit of three applies.
\<close>

theorem rebooking_skips_flight_without_aircraft:
  "map flight_pk (spec_candidates 55000 rebooking_db (example_flight 10 None 50000 75000))
     = [11, 12, 13]
   \<and> map aircraft_id (spec_candidates 55000 rebooking_db (example_flight 10 None 50000 75000))
     = [None, Some 1, Some 2]
   \<and> map suggested_flight_id (suggest_rebookings 55000 rebooking_db) = [14]"
  by code_simp

end
